theory Spec2Isabelle
  imports Main "HOL-Library.Sublist" "HOL-Library.Finite_Map" "HOL-Library.Word"
    "HOL-Library.Code_Target_Numeral"
begin

section \<open>Go strings\<close>

text \<open>
  A Go string is a sequence of bytes, so it is a \<^typ>\<open>string\<close> here: \<^const>\<open>length\<close> is
  Go's \<open>len\<close>, and \<open>s[i:j]\<close> is \<open>take (j - i) (drop i s)\<close>.
\<close>

subsection \<open>\<open>strings.Index\<close>, \<open>strings.Contains\<close>\<close>

text \<open>
  \<open>strings.Index(s, substr)\<close>: the index of the first instance of \<open>substr\<close> in \<open>s\<close>,
  or \<open>-1\<close> when there is none.
\<close>

fun Index :: "string \<Rightarrow> string \<Rightarrow> int" where
  "Index [] substr = (if substr = [] then 0 else - 1)"
| "Index (c # cs) substr =
     (if prefix substr (c # cs) then 0
      else (let m = Index cs substr in if m < 0 then - 1 else m + 1))"

text \<open>\<open>func Contains(s, substr string) bool { return Index(s, substr) >= 0 }\<close>\<close>

definition Contains :: "string \<Rightarrow> string \<Rightarrow> bool" where
  "Contains s substr \<longleftrightarrow> Index s substr \<ge> 0"

subsection \<open>\<open>strings.ToLower\<close>\<close>

definition isASCII :: "string \<Rightarrow> bool" where
  "isASCII s \<longleftrightarrow> (\<forall>c \<in> set s. of_char c < (128 :: nat))"

definition lowerByte :: "char \<Rightarrow> char" where
  "lowerByte c =
     (if of_char CHR ''A'' \<le> (of_char c :: nat) \<and> (of_char c :: nat) \<le> of_char CHR ''Z''
      then char_of (of_char c + 32 :: nat) else c)"

text \<open>
  \<open>strings.ToLower\<close> maps the bytes \<open>A\<close>..\<open>Z\<close> of an ASCII-only string to \<open>a\<close>..\<open>z\<close>
  itself; a string with a byte from \<open>0x80\<close> on goes to \<open>strings.Map(unicode.ToLower, s)\<close>,
  which reads the Unicode case tables of the standard library. Those tables are the
  parameter \<open>unicodeLower\<close>.
\<close>

definition ToLower :: "(string \<Rightarrow> string) \<Rightarrow> string \<Rightarrow> string" where
  "ToLower unicodeLower s = (if isASCII s then map lowerByte s else unicodeLower s)"

subsection \<open>\<open>strings.Split\<close>, \<open>strings.Join\<close>\<close>

text \<open>
  \<open>strings.Split(s, sep)\<close> for a separator that is not empty (\<open>genSplit\<close> with
  \<open>sepSave = 0\<close>, \<open>n = -1\<close>): cut at the first instance of \<open>sep\<close>, go on behind it.
  The count \<open>n = Count(s, sep) + 1\<close> of the source stops the loop where \<open>Index\<close> finds
  nothing more, so it is not carried here.
\<close>

function genSplit :: "string \<Rightarrow> string \<Rightarrow> string list" where
  "genSplit s sep =
     (if sep = [] then [s]
      else (let m = Index s sep in
        if m < 0 then [s]
        else take (nat m) s # genSplit (drop (nat m + length sep) s) sep))"
  by pat_completeness auto
termination
proof (relation "measure (\<lambda>(s, sep). length s)")
  show "wf (measure (\<lambda>(s, sep). length s))" by simp
next
  fix s sep :: string and m :: int
  assume sep: "sep \<noteq> []" and m: "m = Index s sep" "\<not> m < 0"
  have upper: "0 \<le> Index t sep \<Longrightarrow> nat (Index t sep) + length sep \<le> length t" for t
  proof (induction t)
    case Nil
    then show ?case by (simp split: if_splits)
  next
    case (Cons c cs)
    then show ?case
      by (auto simp: Let_def split: if_splits dest: prefix_length_le)
  qed
  from sep m have "nat m + length sep \<le> length s" "0 < length sep"
    using upper [of s] by simp_all
  then have "length s - (nat m + length sep) < length s"
    by arith
  then show "((drop (nat m + length sep) s, sep), (s, sep)) \<in> measure (\<lambda>(s, sep). length s)"
    by simp
qed

declare genSplit.simps [simp del]

text \<open>
  With the empty separator Go cuts \<open>s\<close> into its UTF-8 sequences (\<open>explode\<close>); for ASCII
  text these are the single bytes. The program splits on \<open>"\n\t"\<close> only.
\<close>

definition Split :: "string \<Rightarrow> string \<Rightarrow> string list" where
  "Split s sep = (if sep = [] then map (\<lambda>c. [c]) s else genSplit s sep)"

fun Join :: "string list \<Rightarrow> string \<Rightarrow> string" where
  "Join [] sep = []"
| "Join [e] sep = e"
| "Join (e # es) sep = e @ sep @ Join es sep"

subsection \<open>Decimal text of integers\<close>

definition digitByte :: "nat \<Rightarrow> char" where
  "digitByte d = char_of (of_char CHR ''0'' + d)"

text \<open>\<open>fmtInt\<close> of package \<open>time\<close>: the decimal digits of \<open>v\<close> in front of \<open>buf\<close>.\<close>

fun fmtInt_loop :: "nat \<Rightarrow> string \<Rightarrow> string" where
  "fmtInt_loop v buf = (if v > 0 then fmtInt_loop (v div 10) (digitByte (v mod 10) # buf) else buf)"

declare fmtInt_loop.simps [simp del]

definition fmtInt :: "string \<Rightarrow> nat \<Rightarrow> string" where
  "fmtInt buf v = (if v = 0 then CHR ''0'' # buf else fmtInt_loop v buf)"

text \<open>\<open>fmt.Sprint\<close> of a Go \<open>int\<close>: decimal, with a minus sign below zero.\<close>

definition Sprint_int :: "int \<Rightarrow> string" where
  "Sprint_int i = (if i < 0 then CHR ''-'' # fmtInt [] (nat (- i)) else fmtInt [] (nat i))"

subsection \<open>\<open>time.Duration.String\<close>\<close>

text \<open>
  \<open>fmtFrac\<close> of package \<open>time\<close>: the fraction of \<open>v / 10^prec\<close> in front of \<open>buf\<close>,
  without trailing zeros and without the point when the fraction is zero; it returns
  \<open>v / 10^prec\<close> too.
\<close>

fun fmtFrac_loop :: "nat \<Rightarrow> nat \<Rightarrow> bool \<Rightarrow> string \<Rightarrow> string \<times> nat \<times> bool" where
  "fmtFrac_loop 0 v print buf = (buf, v, print)"
| "fmtFrac_loop (Suc i) v print buf =
     (let digit = v mod 10;
          print = (print \<or> digit \<noteq> 0);
          buf = (if print then digitByte digit # buf else buf)
      in fmtFrac_loop i (v div 10) print buf)"

definition fmtFrac :: "string \<Rightarrow> nat \<Rightarrow> nat \<Rightarrow> string \<times> nat" where
  "fmtFrac buf v prec =
     (case fmtFrac_loop prec v False buf of
        (buf, v, print) \<Rightarrow> (if print then CHR ''.'' # buf else buf, v))"

text \<open>
  A \<open>time.Duration\<close> is a count of nanoseconds (an \<open>int64\<close>). Its \<open>String\<close> method
  writes the text from the right: the unit, the fraction, the integer part
  (\<open>Duration_format\<close>, on the absolute value \<open>u\<close>), then the sign.
  Below one second the unit is \<open>ns\<close>, \<open>\<mu>s\<close> (the bytes \<open>0xC2 0xB5\<close> and \<open>s\<close>) or
  \<open>ms\<close>; from one second on the form is \<open>1h2m3.5s\<close>.
\<close>

definition Duration_format :: "nat \<Rightarrow> string" where
  "Duration_format u =
     (if u < 1000000000 then
        (if u = 0 then ''0s''
         else case (if u < 1000 then (0, ''ns'')
                    else if u < 1000000 then (3, [CHR 0xC2, CHR 0xB5, CHR ''s''])
                    else (6, ''ms'')) of
           (prec, buf) \<Rightarrow> (case fmtFrac buf u prec of (buf, u) \<Rightarrow> fmtInt buf u))
      else
        (case fmtFrac ''s'' u 9 of
           (buf, u) \<Rightarrow>
             (let buf = fmtInt buf (u mod 60);
                  u = u div 60
              in if u > 0 then
                   (let buf = fmtInt (CHR ''m'' # buf) (u mod 60);
                        u = u div 60
                    in if u > 0 then fmtInt (CHR ''h'' # buf) u else buf)
                 else buf)))"

definition Duration_String :: "int \<Rightarrow> string" where
  "Duration_String d =
     (let u = nat \<bar>d\<bar>;
          neg = (d < 0);
          buf = Duration_format u
      in if neg then CHR ''-'' # buf else buf)"

section \<open>Redaction policy (\<open>logger/canonical_logger.go\<close>, \<open>Sanitize\<close>)\<close>

text \<open>
  \<open>DenyPatterns\<close> is a package variable; nothing in the package assigns to it, and it is
  taken with the value the source gives it.
\<close>

definition DenyPatterns :: "string list" where
  "DenyPatterns =
     [''login'', ''refresh-token'', ''verify-otp'', ''password'', ''token'', ''secret'', ''key'']"

text \<open>The loop over the deny patterns, with its early \<open>return true\<close>.\<close>

fun Sanitize_range :: "string \<Rightarrow> string list \<Rightarrow> bool" where
  "Sanitize_range logKeyLower [] = False"
| "Sanitize_range logKeyLower (denyPattern # rest) =
     (if Contains logKeyLower denyPattern then True else Sanitize_range logKeyLower rest)"

definition Sanitize :: "(string \<Rightarrow> string) \<Rightarrow> string \<Rightarrow> bool" where
  "Sanitize unicodeLower logKey =
     (let logKeyLower = ToLower unicodeLower logKey in Sanitize_range logKeyLower DenyPatterns)"

section \<open>The canonical log line (\<open>logger/canonical_logger.go\<close>)\<close>

text \<open>
  \<open>Level\<close> is an \<open>int\<close> with the constants \<open>1 << iota\<close>; a caller may pass any
  \<open>int\<close>.
\<close>

definition Debug :: int where "Debug = 1"
definition Info :: int where "Info = 2"
definition Warn :: int where "Warn = 4"
definition Error :: int where "Error = 8"

record CanonicalLog =
  Transport :: string
  Traffic :: string
  Method :: string
  Status :: int
  Path :: string
  Duration :: int
  Message :: string
  Level :: int

subsection \<open>The template\<close>

text \<open>
  \<open>CompileCanonicalLogTemplate\<close> parses, with \<open>html/template\<close>,
  \<^verbatim>\<open>[{{.Transport}}][{{.Traffic}}] {{.Method}} {{.Status}} {{.Path}} {{.Duration}} - {{.Message}}\<close>
  into text nodes and field actions, and stores the result in the package variable
  \<open>canonicalLogTemplate\<close>, which is \<open>nil\<close> (\<open>None\<close>) before.
\<close>

datatype field = Transport_field | Traffic_field | Method_field | Status_field
  | Path_field | Duration_field | Message_field

datatype node = TextNode string | ActionNode field

type_synonym template = "node list"

definition CompileCanonicalLogTemplate :: "template option" where
  "CompileCanonicalLogTemplate =
     Some [TextNode ''['', ActionNode Transport_field, TextNode '']['',
           ActionNode Traffic_field, TextNode ''] '', ActionNode Method_field,
           TextNode '' '', ActionNode Status_field, TextNode '' '',
           ActionNode Path_field, TextNode '' '', ActionNode Duration_field,
           TextNode '' - '', ActionNode Message_field]"

definition GetCanonicalLogTemplate :: "template option \<Rightarrow> string + template" where
  "GetCanonicalLogTemplate canonicalLogTemplate =
     (case canonicalLogTemplate of
        Some t \<Rightarrow> Inr t
      | None \<Rightarrow> Inl ''canonicalLogTemplate is nil'')"

text \<open>
  The package is \<open>html/template\<close>, not \<open>text/template\<close>: the value of every action is
  printed as \<open>fmt.Sprint\<close> prints it (a string as it is, an \<open>int\<close> in decimal, a
  \<open>time.Duration\<close> by its \<open>String\<close> method) and then, the action standing in HTML
  text, passed through the HTML escaper, which replaces seven bytes (its
  \<open>htmlReplacementTable\<close>) and keeps every other byte.
\<close>

definition htmlReplacement :: "char \<Rightarrow> string" where
  "htmlReplacement c =
     (if c = CHR 0x00 then [CHR 0xEF, CHR 0xBF, CHR 0xBD]
      else if c = CHR 0x22 then ''&#34;''
      else if c = CHR ''&'' then ''&amp;''
      else if c = CHR 0x27 then ''&#39;''
      else if c = CHR ''+'' then ''&#43;''
      else if c = CHR ''<'' then ''&lt;''
      else if c = CHR ''>'' then ''&gt;''
      else [c])"

definition htmlEscaper :: "string \<Rightarrow> string" where
  "htmlEscaper s = concat (map htmlReplacement s)"

fun stringify :: "CanonicalLog \<Rightarrow> field \<Rightarrow> string" where
  "stringify data Transport_field = Transport data"
| "stringify data Traffic_field = Traffic data"
| "stringify data Method_field = Method data"
| "stringify data Status_field = Sprint_int (Status data)"
| "stringify data Path_field = Path data"
| "stringify data Duration_field = Duration_String (Duration data)"
| "stringify data Message_field = Message data"

fun execNode :: "CanonicalLog \<Rightarrow> node \<Rightarrow> string" where
  "execNode data (TextNode literal) = literal"
| "execNode data (ActionNode f) = htmlEscaper (stringify data f)"

text \<open>
  \<open>Execute\<close> writes into a \<open>strings.Builder\<close>, which takes every write, and every
  field the template names is a field of \<open>CanonicalLog\<close>: it returns no error here.
\<close>

definition Execute :: "template \<Rightarrow> CanonicalLog \<Rightarrow> string + string" where
  "Execute t data = Inr (concat (map (execNode data) t))"

subsection \<open>Errors and log attributes\<close>

record StackError =
  Kind :: string
  Message_StackError :: string
  Stack :: string

text \<open>
  Values of type \<open>interface{}\<close>: what \<open>encoding/json\<close> decodes into (\<open>nil\<close>, \<open>bool\<close>,
  \<open>float64\<close> as its 64 bits, \<open>string\<close>, \<open>[]interface{}\<close>, \<open>map[string]interface{}\<close>)
  and \<open>int\<close>. A map that is \<open>nil\<close> is \<open>AnyMap None\<close>.
\<close>

datatype any = AnyNil | AnyBool bool | AnyInt int | AnyFloat64 "64 word" | AnyString string
  | AnySlice "any list" | AnyMap "(string, any) fmap option"

text \<open>A slice that is \<open>nil\<close> is \<open>None\<close>, an empty slice that is not is \<open>Some []\<close>.\<close>

record ExceptionError =
  Code :: int
  GlobalMessage :: string
  DebugMessage :: string
  APIStatusCode :: int
  ErrFields :: "(string, any) fmap option"
  OverrideLogLevel :: bool
  Level_ExceptionError :: string
  StackErrors :: "StackError list option"

text \<open>
  A value of the interface \<open>error\<close> that is not \<open>nil\<close>: a \<open>*ExceptionError\<close>, which may
  be a \<open>nil\<close> pointer inside the interface, or an error of another type (with its text).
  The argument \<open>err\<close> is an \<open>error option\<close>, \<open>None\<close> being \<open>nil\<close>.
\<close>

datatype error = ExceptionErrorPtr "ExceptionError option" | OtherError string

text \<open>The attributes built by \<open>slog.String\<close>, \<open>slog.Int\<close>, \<open>slog.Any\<close>, \<open>slog.Group\<close>.\<close>

datatype attr = slog_String string string | slog_Int string int | slog_Any string any
  | slog_Group string "attr list"

text \<open>The method of the \<open>slog.Logger\<close> that is called, with its message and arguments.\<close>

datatype slog_method = DebugContext | InfoContext | WarnContext | ErrorContext

record emission =
  called :: slog_method
  msg :: string
  args :: "attr list"

definition GetStackField :: "StackError list option \<Rightarrow> StackError" where
  "GetStackField stackErrors =
     (case stackErrors of
        Some (first # rest) \<Rightarrow> first
      | _ \<Rightarrow> \<lparr>Kind = ''unknown'', Message_StackError = ''no stack information available'',
              Stack = []\<rparr>)"

subsection \<open>\<open>CanonicalLogger\<close>\<close>

text \<open>
  \<open>json.Unmarshal(raw, &jsonObj)\<close> with \<open>jsonObj\<close> a \<open>map[string]interface{}\<close> is the
  parameter \<open>Unmarshal\<close>: \<open>Inl\<close> the error, \<open>Inr\<close> the map (\<open>None\<close> for the JSON text
  \<open>null\<close>, which leaves the map \<open>nil\<close>). The source has this block three times, for
  the request (lines 76-81) and for the response (lines 116-121, 125-130). The decoder
  of the standard library is \<open>json_Unmarshal\<close> below.
\<close>

type_synonym unmarshal = "string \<Rightarrow> string + (string, any) fmap option"

definition payloadField :: "unmarshal \<Rightarrow> string \<Rightarrow> string \<Rightarrow> attr" where
  "payloadField Unmarshal key raw =
     (case Unmarshal raw of
        Inl unmarshalErr \<Rightarrow> slog_String key raw
      | Inr jsonObj \<Rightarrow> slog_Any key (AnyMap jsonObj))"

definition stackSep :: string where
  "stackSep = [CHR 0x0A, CHR 0x09]"

text \<open>Lines 94-103: the group \<open>error\<close> of the first stack entry, its stack cut.\<close>

definition stackGroup :: "StackError list option \<Rightarrow> attr" where
  "stackGroup stackErrors =
     (let stackTrace = GetStackField stackErrors;
          stackTraceParts = Split (Stack stackTrace) stackSep;
          stackTrace = (if length stackTraceParts > 6
                        then stackTrace\<lparr>Stack := Join (take 6 stackTraceParts) stackSep\<rparr>
                        else stackTrace)
      in slog_Group ''error''
           [slog_String ''kind'' (Kind stackTrace),
            slog_String ''message'' (Message_StackError stackTrace),
            slog_String ''stack'' (Stack stackTrace)])"

text \<open>Lines 105-113: the group \<open>response\<close> of an \<open>ExceptionError\<close>.\<close>

definition responseGroup :: "ExceptionError \<Rightarrow> attr" where
  "responseGroup cErr =
     slog_Group ''response''
       [slog_Int ''status_code'' (APIStatusCode cErr),
        slog_Any ''data'' AnyNil,
        slog_Group ''error''
          [slog_Int ''code'' (Code cErr),
           slog_String ''message'' (GlobalMessage cErr),
           slog_String ''debug_message'' (DebugMessage cErr),
           slog_Any ''details'' (AnyMap (ErrFields cErr))]]"

text \<open>
  Lines 88-131: the level, the response fields and the (local copy of the) record after
  the branch on \<open>err\<close>.
\<close>

definition respond ::
  "unmarshal \<Rightarrow> string \<Rightarrow> error option \<Rightarrow> CanonicalLog \<Rightarrow> int \<times> attr list \<times> CanonicalLog" where
  "respond Unmarshal response err canonicalLog =
     (case err of
        Some e \<Rightarrow>
          (case e of
             ExceptionErrorPtr (Some cErr) \<Rightarrow>
               (Error,
                (if StackErrors cErr \<noteq> None then [stackGroup (StackErrors cErr)] else [])
                  @ [responseGroup cErr],
                canonicalLog\<lparr>Message := DebugMessage cErr\<rparr>)
           | _ \<Rightarrow> (Error, [payloadField Unmarshal ''response'' response], canonicalLog))
      | None \<Rightarrow> (Info, [payloadField Unmarshal ''response'' response], canonicalLog))"

text \<open>Lines 143-155.\<close>

definition logMessage :: "template option \<Rightarrow> CanonicalLog \<Rightarrow> string" where
  "logMessage canonicalLogTemplate canonicalLog =
     (case GetCanonicalLogTemplate canonicalLogTemplate of
        Inl logTmplErr \<Rightarrow> ''failed to get canonical log template''
      | Inr logTmpl \<Rightarrow>
          (case Execute logTmpl canonicalLog of
             Inl executeErr \<Rightarrow> ''failed to execute canonical log template''
           | Inr logMsg \<Rightarrow> logMsg))"

text \<open>Lines 160-171: the switch on the level; an unknown level logs as an error.\<close>

definition emit :: "int \<Rightarrow> string \<Rightarrow> attr list \<Rightarrow> emission" where
  "emit level logMsg fieldList =
     \<lparr>called = (if level = Debug then DebugContext
                else if level = Info then InfoContext
                else if level = Warn then WarnContext
                else if level = Error then ErrorContext
                else ErrorContext),
      msg = logMsg, args = fieldList\<rparr>"

text \<open>
  \<open>CanonicalLogger\<close>, without its context and its logger: the result is the one call
  it makes on the logger. \<open>metadata\<close> is a list of attributes, as the two callers pass.
\<close>

definition CanonicalLogger ::
  "(string \<Rightarrow> string) \<Rightarrow> unmarshal \<Rightarrow> template option \<Rightarrow>
   int \<Rightarrow> string \<Rightarrow> string \<Rightarrow> error option \<Rightarrow> CanonicalLog \<Rightarrow> attr list \<Rightarrow> emission" where
  "CanonicalLogger unicodeLower Unmarshal canonicalLogTemplate
     level request response err canonicalLog metadata =
     (let logKey = Path canonicalLog;
          reqFields = [payloadField Unmarshal ''request'' request];
          shouldSanitize = Sanitize unicodeLower logKey;
          reqFields = (if shouldSanitize then [slog_String ''request'' ''REDACTED'']
                       else reqFields)
      in case respond Unmarshal response err canonicalLog of
           (level, respFields, canonicalLog) \<Rightarrow>
             (let respFields = (if shouldSanitize then [slog_String ''response'' ''REDACTED'']
                                else respFields);
                  mdFields = [slog_String ''logger_name'' ''canonical'',
                              slog_Group ''md'' metadata];
                  logMsg = logMessage canonicalLogTemplate canonicalLog;
                  fieldList = reqFields @ respFields @ mdFields
              in emit level logMsg fieldList))"

section \<open>\<open>json.Unmarshal\<close> into a map (\<open>encoding/json\<close>)\<close>

subsection \<open>The scanner: \<open>checkValid\<close>\<close>

text \<open>
  \<open>json.Unmarshal\<close> first runs \<open>checkValid\<close> over the bytes: a \<open>scanner\<close> whose \<open>step\<close>
  is the state function for the next byte and whose \<open>parseState\<close> is the stack of the
  objects and arrays that are open. The state functions that differ only in the byte they
  expect (\<open>stateT\<close>, \<open>stateTr\<close>, ..., \<open>stateNul\<close>; \<open>stateInStringEscU\<close> to
  \<open>stateInStringEscU123\<close>) are one function each here, with that byte or the next state
  as an argument. \<open>scan_err\<close> is \<open>s.err != nil\<close>.
\<close>

datatype parseState = parseObjectKey | parseObjectValue | parseArrayValue

datatype scanStep = BeginValueOrEmpty | BeginValue | BeginStringOrEmpty | BeginString
  | EndValue | EndTop | InString | InStringEsc | InStringEscU | InStringEscU1
  | InStringEscU12 | InStringEscU123 | Neg | Digit1 | Digit0 | Dot | Dot0 | Exp | ExpSign
  | Exp0 | LitT | LitTr | LitTru | LitF | LitFa | LitFal | LitFals | LitN | LitNu | LitNul
  | ScanError

datatype opcode = scanContinue | scanBeginLiteral | scanBeginObject | scanObjectKey
  | scanObjectValue | scanEndObject | scanBeginArray | scanArrayValue | scanEndArray
  | scanSkipSpace | scanEnd | scanError

record scanner =
  scan_step :: scanStep
  scan_parseState :: "parseState list"
  scan_err :: bool
  scan_endTop :: bool

text \<open>\<open>reset\<close>, \<open>error\<close>, and the stack of open objects and arrays.\<close>

definition maxNestingDepth :: nat where
  "maxNestingDepth = 10000"


definition scanner_error :: "scanner \<Rightarrow> opcode \<times> scanner" where
  "scanner_error s = (scanError, s\<lparr>scan_step := ScanError, scan_err := True\<rparr>)"

definition continue_in :: "scanStep \<Rightarrow> scanner \<Rightarrow> opcode \<times> scanner" where
  "continue_in next s = (scanContinue, s\<lparr>scan_step := next\<rparr>)"

definition isSpace :: "char \<Rightarrow> bool" where
  "isSpace c \<longleftrightarrow> c = CHR '' '' \<or> c = CHR 0x09 \<or> c = CHR 0x0D \<or> c = CHR 0x0A"

definition inRange :: "char \<Rightarrow> char \<Rightarrow> char \<Rightarrow> bool" where
  "inRange lo hi c \<longleftrightarrow> (of_char lo :: nat) \<le> of_char c \<and> (of_char c :: nat) \<le> of_char hi"

definition pushParseState :: "scanner \<Rightarrow> parseState \<Rightarrow> opcode \<Rightarrow> opcode \<times> scanner" where
  "pushParseState s newParseState successState =
     (let s = s\<lparr>scan_parseState := scan_parseState s @ [newParseState]\<rparr>
      in if length (scan_parseState s) \<le> maxNestingDepth then (successState, s)
         else scanner_error s)"

definition popParseState :: "scanner \<Rightarrow> scanner" where
  "popParseState s =
     (let n = length (scan_parseState s) - 1;
          s = s\<lparr>scan_parseState := take n (scan_parseState s)\<rparr>
      in if n = 0 then s\<lparr>scan_step := EndTop, scan_endTop := True\<rparr>
         else s\<lparr>scan_step := EndValue\<rparr>)"

definition setLast :: "parseState \<Rightarrow> scanner \<Rightarrow> scanner" where
  "setLast ps s = s\<lparr>scan_parseState := butlast (scan_parseState s) @ [ps]\<rparr>"

text \<open>
  After the top-level value only white space may follow; \<open>stateEndTop\<close> records the
  error for the next call and still returns \<open>scanEnd\<close>.
\<close>

definition stateEndTop :: "scanner \<Rightarrow> char \<Rightarrow> opcode \<times> scanner" where
  "stateEndTop s c =
     (if \<not> isSpace c then (scanEnd, snd (scanner_error s)) else (scanEnd, s))"

definition stateEndValue :: "scanner \<Rightarrow> char \<Rightarrow> opcode \<times> scanner" where
  "stateEndValue s c =
     (let n = length (scan_parseState s) in
      if n = 0 then stateEndTop (s\<lparr>scan_step := EndTop, scan_endTop := True\<rparr>) c
      else if isSpace c then (scanSkipSpace, s\<lparr>scan_step := EndValue\<rparr>)
      else case last (scan_parseState s) of
        parseObjectKey \<Rightarrow>
          if c = CHR '':'' then
            (scanObjectKey, (setLast parseObjectValue s)\<lparr>scan_step := BeginValue\<rparr>)
          else scanner_error s
      | parseObjectValue \<Rightarrow>
          if c = CHR '','' then
            (scanObjectValue, (setLast parseObjectKey s)\<lparr>scan_step := BeginString\<rparr>)
          else if c = CHR ''}'' then (scanEndObject, popParseState s)
          else scanner_error s
      | parseArrayValue \<Rightarrow>
          if c = CHR '','' then (scanArrayValue, s\<lparr>scan_step := BeginValue\<rparr>)
          else if c = CHR '']'' then (scanEndArray, popParseState s)
          else scanner_error s)"

text \<open>The start of a value, of an object key, and the inside of a string.\<close>

definition stateBeginValue :: "scanner \<Rightarrow> char \<Rightarrow> opcode \<times> scanner" where
  "stateBeginValue s c =
     (if isSpace c then (scanSkipSpace, s)
      else if c = CHR ''{'' then
        pushParseState (s\<lparr>scan_step := BeginStringOrEmpty\<rparr>) parseObjectKey scanBeginObject
      else if c = CHR ''['' then
        pushParseState (s\<lparr>scan_step := BeginValueOrEmpty\<rparr>) parseArrayValue scanBeginArray
      else if c = CHR 0x22 then (scanBeginLiteral, s\<lparr>scan_step := InString\<rparr>)
      else if c = CHR ''-'' then (scanBeginLiteral, s\<lparr>scan_step := Neg\<rparr>)
      else if c = CHR ''0'' then (scanBeginLiteral, s\<lparr>scan_step := Digit0\<rparr>)
      else if c = CHR ''t'' then (scanBeginLiteral, s\<lparr>scan_step := LitT\<rparr>)
      else if c = CHR ''f'' then (scanBeginLiteral, s\<lparr>scan_step := LitF\<rparr>)
      else if c = CHR ''n'' then (scanBeginLiteral, s\<lparr>scan_step := LitN\<rparr>)
      else if inRange CHR ''1'' CHR ''9'' c then (scanBeginLiteral, s\<lparr>scan_step := Digit1\<rparr>)
      else scanner_error s)"

definition stateBeginValueOrEmpty :: "scanner \<Rightarrow> char \<Rightarrow> opcode \<times> scanner" where
  "stateBeginValueOrEmpty s c =
     (if isSpace c then (scanSkipSpace, s)
      else if c = CHR '']'' then stateEndValue s c
      else stateBeginValue s c)"

definition stateBeginString :: "scanner \<Rightarrow> char \<Rightarrow> opcode \<times> scanner" where
  "stateBeginString s c =
     (if isSpace c then (scanSkipSpace, s)
      else if c = CHR 0x22 then (scanBeginLiteral, s\<lparr>scan_step := InString\<rparr>)
      else scanner_error s)"

definition stateBeginStringOrEmpty :: "scanner \<Rightarrow> char \<Rightarrow> opcode \<times> scanner" where
  "stateBeginStringOrEmpty s c =
     (if isSpace c then (scanSkipSpace, s)
      else if c = CHR ''}'' then stateEndValue (setLast parseObjectValue s) c
      else stateBeginString s c)"

definition stateInString :: "scanner \<Rightarrow> char \<Rightarrow> opcode \<times> scanner" where
  "stateInString s c =
     (if c = CHR 0x22 then continue_in EndValue s
      else if c = CHR 0x5C then continue_in InStringEsc s
      else if (of_char c :: nat) < 0x20 then scanner_error s
      else (scanContinue, s))"

definition stateInStringEsc :: "scanner \<Rightarrow> char \<Rightarrow> opcode \<times> scanner" where
  "stateInStringEsc s c =
     (if c \<in> set [CHR ''b'', CHR ''f'', CHR ''n'', CHR ''r'', CHR ''t'', CHR 0x5C, CHR ''/'',
                   CHR 0x22]
      then continue_in InString s
      else if c = CHR ''u'' then continue_in InStringEscU s
      else scanner_error s)"

definition isHex :: "char \<Rightarrow> bool" where
  "isHex c \<longleftrightarrow> inRange CHR ''0'' CHR ''9'' c \<or> inRange CHR ''a'' CHR ''f'' c
     \<or> inRange CHR ''A'' CHR ''F'' c"

definition stateInStringEscU_any :: "scanStep \<Rightarrow> scanner \<Rightarrow> char \<Rightarrow> opcode \<times> scanner" where
  "stateInStringEscU_any next s c = (if isHex c then continue_in next s else scanner_error s)"

text \<open>Numbers: \<open>-\<close>, the integer part, the fraction, the exponent.\<close>

definition isDigit :: "char \<Rightarrow> bool" where
  "isDigit c \<longleftrightarrow> inRange CHR ''0'' CHR ''9'' c"

definition stateNeg :: "scanner \<Rightarrow> char \<Rightarrow> opcode \<times> scanner" where
  "stateNeg s c =
     (if c = CHR ''0'' then continue_in Digit0 s
      else if inRange CHR ''1'' CHR ''9'' c then continue_in Digit1 s
      else scanner_error s)"

definition state0 :: "scanner \<Rightarrow> char \<Rightarrow> opcode \<times> scanner" where
  "state0 s c =
     (if c = CHR ''.'' then continue_in Dot s
      else if c = CHR ''e'' \<or> c = CHR ''E'' then continue_in Exp s
      else stateEndValue s c)"

definition state1 :: "scanner \<Rightarrow> char \<Rightarrow> opcode \<times> scanner" where
  "state1 s c = (if isDigit c then continue_in Digit1 s else state0 s c)"

definition stateDot :: "scanner \<Rightarrow> char \<Rightarrow> opcode \<times> scanner" where
  "stateDot s c = (if isDigit c then continue_in Dot0 s else scanner_error s)"

definition stateDot0 :: "scanner \<Rightarrow> char \<Rightarrow> opcode \<times> scanner" where
  "stateDot0 s c =
     (if isDigit c then (scanContinue, s)
      else if c = CHR ''e'' \<or> c = CHR ''E'' then continue_in Exp s
      else stateEndValue s c)"

definition stateESign :: "scanner \<Rightarrow> char \<Rightarrow> opcode \<times> scanner" where
  "stateESign s c = (if isDigit c then continue_in Exp0 s else scanner_error s)"

definition stateE :: "scanner \<Rightarrow> char \<Rightarrow> opcode \<times> scanner" where
  "stateE s c =
     (if c = CHR ''+'' \<or> c = CHR ''-'' then continue_in ExpSign s else stateESign s c)"

definition stateE0 :: "scanner \<Rightarrow> char \<Rightarrow> opcode \<times> scanner" where
  "stateE0 s c = (if isDigit c then (scanContinue, s) else stateEndValue s c)"

text \<open>The literals \<open>true\<close>, \<open>false\<close>, \<open>null\<close>, byte by byte.\<close>

definition stateLiteral :: "char \<Rightarrow> scanStep \<Rightarrow> scanner \<Rightarrow> char \<Rightarrow> opcode \<times> scanner" where
  "stateLiteral expected next s c = (if c = expected then continue_in next s else scanner_error s)"

definition scanner_step :: "scanner \<Rightarrow> char \<Rightarrow> opcode \<times> scanner" where
  "scanner_step s c =
     (case scan_step s of
        BeginValueOrEmpty \<Rightarrow> stateBeginValueOrEmpty s c
      | BeginValue \<Rightarrow> stateBeginValue s c
      | BeginStringOrEmpty \<Rightarrow> stateBeginStringOrEmpty s c
      | BeginString \<Rightarrow> stateBeginString s c
      | EndValue \<Rightarrow> stateEndValue s c
      | EndTop \<Rightarrow> stateEndTop s c
      | InString \<Rightarrow> stateInString s c
      | InStringEsc \<Rightarrow> stateInStringEsc s c
      | InStringEscU \<Rightarrow> stateInStringEscU_any InStringEscU1 s c
      | InStringEscU1 \<Rightarrow> stateInStringEscU_any InStringEscU12 s c
      | InStringEscU12 \<Rightarrow> stateInStringEscU_any InStringEscU123 s c
      | InStringEscU123 \<Rightarrow> stateInStringEscU_any InString s c
      | Neg \<Rightarrow> stateNeg s c
      | Digit1 \<Rightarrow> state1 s c
      | Digit0 \<Rightarrow> state0 s c
      | Dot \<Rightarrow> stateDot s c
      | Dot0 \<Rightarrow> stateDot0 s c
      | Exp \<Rightarrow> stateE s c
      | ExpSign \<Rightarrow> stateESign s c
      | Exp0 \<Rightarrow> stateE0 s c
      | LitT \<Rightarrow> stateLiteral CHR ''r'' LitTr s c
      | LitTr \<Rightarrow> stateLiteral CHR ''u'' LitTru s c
      | LitTru \<Rightarrow> stateLiteral CHR ''e'' EndValue s c
      | LitF \<Rightarrow> stateLiteral CHR ''a'' LitFa s c
      | LitFa \<Rightarrow> stateLiteral CHR ''l'' LitFal s c
      | LitFal \<Rightarrow> stateLiteral CHR ''s'' LitFals s c
      | LitFals \<Rightarrow> stateLiteral CHR ''e'' EndValue s c
      | LitN \<Rightarrow> stateLiteral CHR ''u'' LitNu s c
      | LitNu \<Rightarrow> stateLiteral CHR ''l'' LitNul s c
      | LitNul \<Rightarrow> stateLiteral CHR ''l'' EndValue s c
      | ScanError \<Rightarrow> (scanError, s))"

text \<open>
  \<open>eof\<close> and \<open>checkValid\<close>: the loop over the bytes returns at the first
  \<open>scanError\<close>, and the end of the input must end the top-level value.
\<close>

definition scanner_eof :: "scanner \<Rightarrow> opcode" where
  "scanner_eof s =
     (if scan_err s then scanError
      else if scan_endTop s then scanEnd
      else (let s = snd (scanner_step s CHR '' '')
            in if scan_endTop s then scanEnd else scanError))"

fun checkValid_range :: "scanner \<Rightarrow> string \<Rightarrow> bool" where
  "checkValid_range scan [] = (scanner_eof scan \<noteq> scanError)"
| "checkValid_range scan (c # rest) =
     (case scanner_step scan c of
        (op, scan) \<Rightarrow> if op = scanError then False else checkValid_range scan rest)"


subsection \<open>Decoding into \<open>map[string]interface{}\<close>\<close>






section \<open>The filtering encoder (\<open>CoolEncoder.EncodeEntry\<close>)\<close>

text \<open>A \<open>zapcore.Field\<close> and its \<open>FieldType\<close>.\<close>

datatype FieldType = UnknownType | ArrayMarshalerType | ObjectMarshalerType | BinaryType
  | BoolType | ByteStringType | Complex128Type | Complex64Type | DurationType | Float64Type
  | Float32Type | Int64Type | Int32Type | Int16Type | Int8Type | StringType | TimeType
  | TimeFullType | Uint64Type | Uint32Type | Uint16Type | Uint8Type | UintptrType
  | ReflectType | NamespaceType | StringerType | ErrorType | SkipType | InlineMarshalerType

record 'i Field =
  Key :: string
  Type :: FieldType
  Integer :: int
  String_Field :: string
  Interface :: 'i

text \<open>The loop of \<open>EncodeEntry\<close>: \<open>filtered\<close> grows by \<open>append\<close>, \<open>continue\<close> skips.\<close>

fun EncodeEntry_range :: "'i Field list \<Rightarrow> 'i Field list \<Rightarrow> 'i Field list" where
  "EncodeEntry_range filtered [] = filtered"
| "EncodeEntry_range filtered (f # rest) =
     (if Key f = ''skip'' \<or> Type f = Int64Type then EncodeEntry_range filtered rest
      else EncodeEntry_range (filtered @ [f]) rest)"

text \<open>
  \<open>Encoder_EncodeEntry\<close> is the \<open>EncodeEntry\<close> of the embedded \<open>zapcore.Encoder\<close>; its
  result (a buffer and an error) is returned as it is.
\<close>

definition EncodeEntry :: "('e \<Rightarrow> 'i Field list \<Rightarrow> 'r) \<Rightarrow> 'e \<Rightarrow> 'i Field list \<Rightarrow> 'r" where
  "EncodeEntry Encoder_EncodeEntry entry fieldList =
     Encoder_EncodeEntry entry (EncodeEntry_range [] fieldList)"

section \<open>The sensitive-field masker (\<open>maskSensitiveDataUsingStructTag\<close>)\<close>

text \<open>
  \<open>reflect.StructField\<close>: of a field of the message's struct type the masker reads the
  tag only, a list of key-value pairs such as \<open>json:"password,omitempty" sensitive:"true"\<close>.
  \<open>Tag.Lookup\<close> gives the value of the first pair with the key, \<open>Tag.Get\<close> the empty
  string when there is none.
\<close>

record StructField =
  Name :: string
  Tag :: "(string \<times> string) list"

definition Tag_Lookup :: "(string \<times> string) list \<Rightarrow> string \<Rightarrow> string option" where
  "Tag_Lookup tag key = map_of tag key"

definition Tag_Get :: "(string \<times> string) list \<Rightarrow> string \<Rightarrow> string" where
  "Tag_Get tag key = (case Tag_Lookup tag key of Some v \<Rightarrow> v | None \<Rightarrow> [])"

text \<open>Line 130: the field carries \<open>sensitive:"true"\<close>.\<close>

definition isSensitive :: "StructField \<Rightarrow> bool" where
  "isSensitive field =
     (case Tag_Lookup (Tag field) ''sensitive'' of
        Some sensitiveTag \<Rightarrow> sensitiveTag = ''true''
      | None \<Rightarrow> False)"

text \<open>Lines 131-135: the JSON tag up to its first comma.\<close>

definition jsonFieldName :: "StructField \<Rightarrow> string" where
  "jsonFieldName field =
     (let jsonTag = Tag_Get (Tag field) ''json'';
          commaIdx = Index jsonTag '',''
      in if commaIdx > - 1 then take (nat commaIdx) jsonTag else jsonTag)"

text \<open>
  Lines 137-146: the entry of \<open>data\<close> under that name, when it is there and holds a
  string. \<open>strValue[0:1]\<close> is \<open>take 1\<close>, \<open>strValue[len(strValue)-1:]\<close> is
  \<open>drop (length strValue - 1)\<close>; both count bytes.
\<close>

definition maskEntry :: "string \<Rightarrow> (string, any) fmap \<Rightarrow> (string, any) fmap" where
  "maskEntry name data =
     (case fmlookup data name of
        Some v \<Rightarrow>
          (case v of
             AnyString strValue \<Rightarrow>
               if length strValue \<ge> 2 then
                 fmupd name
                   (AnyString (take 1 strValue @ ''*****'' @ drop (length strValue - 1) strValue))
                   data
               else if length strValue = 1 then
                 fmupd name (AnyString (strValue @ ''*****'')) data
               else data
           | _ \<Rightarrow> data)
      | None \<Rightarrow> data)"

text \<open>The body of the loop over the fields (lines 128-147).\<close>

definition maskField :: "StructField \<Rightarrow> (string, any) fmap \<Rightarrow> (string, any) fmap" where
  "maskField field data =
     (if isSensitive field then maskEntry (jsonFieldName field) data else data)"

fun maskFields :: "StructField list \<Rightarrow> (string, any) fmap \<Rightarrow> (string, any) fmap" where
  "maskFields [] data = data"
| "maskFields (field # rest) data = maskFields rest (maskField field data)"

text \<open>
  The message is a pointer to a struct, given by the fields of its type; \<open>None\<close> is a
  message that is \<open>nil\<close> (\<open>!value.IsValid() || value.IsZero()\<close>), for which the
  function returns at once. The map is changed in place: the result is the map after
  the call.
\<close>

definition maskSensitiveDataUsingStructTag ::
  "StructField list option \<Rightarrow> (string, any) fmap \<Rightarrow> (string, any) fmap" where
  "maskSensitiveDataUsingStructTag message data =
     (case message of
        None \<Rightarrow> data
      | Some structFields \<Rightarrow> maskFields structFields data)"

text \<open>
  What \<open>maskEntry\<close> writes for a string entry (lines 140-144): slices of bytes,
  \<open>strValue[0:1]\<close> and \<open>strValue[len(strValue)-1:]\<close>.
\<close>

definition bytesMasked :: "string \<Rightarrow> string" where
  "bytesMasked strValue =
     (if length strValue \<ge> 2 then
        take 1 strValue @ ''*****'' @ drop (length strValue - 1) strValue
      else if length strValue = 1 then strValue @ ''*****''
      else strValue)"

section \<open>The specification's wording\<close>

text \<open>
  The line the specification asks for: the template with the values of the record put in
  as they are.
\<close>

definition spec_canonicalLine :: "CanonicalLog \<Rightarrow> string" where
  "spec_canonicalLine r =
     ''['' @ Transport r @ '']['' @ Traffic r @ ''] '' @ Method r @ '' ''
       @ Sprint_int (Status r) @ '' '' @ Path r @ '' '' @ Duration_String (Duration r)
       @ '' - '' @ Message r"

text \<open>The bytes the HTML escaper replaces, and the strings that have none of them.\<close>

definition htmlSpecial :: "char \<Rightarrow> bool" where
  "htmlSpecial c \<longleftrightarrow>
     c \<in> {CHR 0x00, CHR 0x22, CHR ''&'', CHR 0x27, CHR ''+'', CHR ''<'', CHR ''>''}"

definition escapeFree :: "string \<Rightarrow> bool" where
  "escapeFree s \<longleftrightarrow> (\<forall>c \<in> set s. \<not> htmlSpecial c)"

text \<open>
  The characters of a string, as Go reads them (\<open>for range\<close>,
  \<open>utf8.DecodeRuneInString\<close>): a byte below \<open>0x80\<close> is a character; a well-formed UTF-8
  sequence of two, three or four bytes is a character; any other byte is a character of
  its own (it decodes to \<open>RuneError\<close> of width one). \<open>multiByte\<close> is the width for a lead
  byte that asks for \<open>sz\<close> bytes and whose second byte must lie between \<open>lo\<close> and \<open>hi\<close>.
\<close>

definition multiByte :: "nat \<Rightarrow> char \<Rightarrow> char \<Rightarrow> string \<Rightarrow> nat" where
  "multiByte sz lo hi rest =
     (if length rest < sz - 1 then 1
      else if \<not> inRange lo hi (rest ! 0) then 1
      else if sz \<le> 2 then 2
      else if \<not> inRange (CHR 0x80) (CHR 0xBF) (rest ! 1) then 1
      else if sz \<le> 3 then 3
      else if \<not> inRange (CHR 0x80) (CHR 0xBF) (rest ! 2) then 1
      else 4)"

fun runeWidth :: "string \<Rightarrow> nat" where
  "runeWidth [] = 0"
| "runeWidth (s0 # rest) =
     (let b = (of_char s0 :: nat) in
      if b < 0x80 then 1
      else if b < 0xC2 then 1
      else if b \<le> 0xDF then multiByte 2 (CHR 0x80) (CHR 0xBF) rest
      else if b = 0xE0 then multiByte 3 (CHR 0xA0) (CHR 0xBF) rest
      else if b = 0xED then multiByte 3 (CHR 0x80) (CHR 0x9F) rest
      else if b \<le> 0xEF then multiByte 3 (CHR 0x80) (CHR 0xBF) rest
      else if b = 0xF0 then multiByte 4 (CHR 0x90) (CHR 0xBF) rest
      else if b \<le> 0xF3 then multiByte 4 (CHR 0x80) (CHR 0xBF) rest
      else if b = 0xF4 then multiByte 4 (CHR 0x80) (CHR 0x8F) rest
      else 1)"

declare runeWidth.simps [simp del]

function characters :: "string \<Rightarrow> string list" where
  "characters s =
     (if s = [] then [] else take (runeWidth s) s # characters (drop (runeWidth s) s))"
  by pat_completeness auto
termination
proof (relation "measure length")
  show "wf (measure length)" by simp
next
  fix s :: string
  assume "s \<noteq> []"
  moreover have "1 \<le> multiByte sz lo hi rest" for sz lo hi rest
    by (simp add: multiByte_def)
  ultimately have "1 \<le> runeWidth s" "0 < length s"
    by (cases s; simp add: runeWidth.simps Let_def)+
  then show "(drop (runeWidth s) s, s) \<in> measure length"
    by simp
qed

declare characters.simps [simp del]

text \<open>
  The mask the specification asks for, over the characters of the string: first
  character, \<open>*****\<close>, last character for a string of two characters or more; the
  character and \<open>*****\<close> for a string of one character; the empty string as it is.
\<close>

definition spec_masked :: "string \<Rightarrow> string" where
  "spec_masked s =
     (let cs = characters s in
      if length cs \<ge> 2 then hd cs @ ''*****'' @ last cs
      else if length cs = 1 then hd cs @ ''*****''
      else s)"

text \<open>
  The strings whose first and last characters are one byte each (or that have at most
  one byte): every ASCII string is one, and so is a string with longer characters only
  in between.
\<close>

definition singleByteEnds :: "string \<Rightarrow> bool" where
  "singleByteEnds s \<longleftrightarrow>
     length s \<le> 1 \<or> (hd (characters s) = [hd s] \<and> last (characters s) = [last s])"




text \<open>A stack text cut to its first six segments delimited by a newline alone.\<close>

definition newline :: string where
  "newline = [CHR 0x0A]"

definition spec_truncatedStack :: "string \<Rightarrow> string" where
  "spec_truncatedStack s = Join (take 6 (Split s newline)) newline"

section \<open>Example inputs\<close>

text \<open>
  The route keys of the examples are ASCII, so the Unicode tables are not read there;
  any function can stand for them.
\<close>

definition unicodeLower_id :: "string \<Rightarrow> string" where
  "unicodeLower_id s = s"

text \<open>
  A decoder for the examples. It agrees with \<open>encoding/json\<close> on the payloads they use:
  \<open>{}\<close> is the empty object, and \<open>invalid json\<close> and \<open>also invalid json\<close> start with a
  byte that begins no JSON value.
\<close>

definition Unmarshal_example :: unmarshal where
  "Unmarshal_example raw =
     (if raw = ''{}'' then Inr (Some fmempty)
      else Inl ''invalid character'')"

text \<open>The record of \<open>TestCompileCanonicalLogTemplate\<close>; 150 ms are 150000000 ns.\<close>

definition exampleLog :: CanonicalLog where
  "exampleLog = \<lparr>Transport = ''HTTP'', Traffic = ''incoming'', Method = ''GET'', Status = 200,
     Path = ''/api/users'', Duration = 150000000, Message = ''Success'', Level = 0\<rparr>"

text \<open>
  Eight lines separated by a newline alone, and the ten segments of
  \<open>TestCanonicalLogger_WithStackErrorTruncation\<close>, joined by \<open>"\n\t"\<close>.
\<close>

definition eightLines :: string where
  "eightLines = Join [''l1'', ''l2'', ''l3'', ''l4'', ''l5'', ''l6'', ''l7'', ''l8''] newline"

definition tenLines :: string where
  "tenLines = Join [''line1'', ''line2'', ''line3'', ''line4'', ''line5'', ''line6'', ''line7'',
     ''line8'', ''line9'', ''line10''] stackSep"

text \<open>The stack of \<open>TestCanonicalLogger_WithError\<close>: two segments.\<close>

definition twoFrames :: string where
  "twoFrames = Join [''UserService.getUser()'', ''UserRepository.findById()''] stackSep"

definition exampleFrame :: "string \<Rightarrow> StackError" where
  "exampleFrame stack =
     \<lparr>Kind = ''RuntimeError'', Message_StackError = ''long stack'', Stack = stack\<rparr>"

definition exampleError :: "StackError list option \<Rightarrow> ExceptionError" where
  "exampleError stackErrors =
     \<lparr>Code = 500, GlobalMessage = ''Internal Error'', DebugMessage = ''Stack trace test'',
      APIStatusCode = 500, ErrFields = None, OverrideLogLevel = False,
      Level_ExceptionError = [], StackErrors = stackErrors\<rparr>"

text \<open>
  A message type with three fields marked sensitive, and a decoded map in which the
  field \<open>age\<close> holds a number (the \<open>float64\<close> 42).
\<close>

definition exampleStruct :: "StructField list" where
  "exampleStruct =
     [\<lparr>Name = ''Username'', Tag = [(''json'', ''username,omitempty'')]\<rparr>,
      \<lparr>Name = ''Password'',
       Tag = [(''json'', ''password,omitempty''), (''sensitive'', ''true'')]\<rparr>,
      \<lparr>Name = ''Pin'', Tag = [(''json'', ''pin''), (''sensitive'', ''true'')]\<rparr>,
      \<lparr>Name = ''Age'', Tag = [(''json'', ''age,omitempty''), (''sensitive'', ''true'')]\<rparr>]"

definition exampleData :: "(string, any) fmap" where
  "exampleData =
     fmupd ''username'' (AnyString ''alice'')
       (fmupd ''password'' (AnyString ''secret123'')
         (fmupd ''pin'' (AnyString ''x'')
           (fmupd ''age'' (AnyFloat64 0x4045000000000000) fmempty)))"





text \<open>The letter e with an acute accent: one character, the two bytes \<open>C3 A9\<close>.\<close>

definition eAcute :: string where
  "eAcute = [CHR 0xC3, CHR 0xA9]"

section \<open>Properties of the string functions\<close>

lemma Index_lower_bound: "- 1 \<le> Index s substr"
  by (induction s) (auto simp: Let_def)

lemma Index_nonneg_iff_sublist: "0 \<le> Index s substr \<longleftrightarrow> sublist substr s"
proof (induction s)
  case Nil
  then show ?case by simp
next
  case (Cons c cs)
  have "- 1 \<le> Index cs substr" by (rule Index_lower_bound)
  with Cons show ?case
    by (auto simp: Let_def sublist_Cons_right)
qed

lemma Contains_iff_sublist: "Contains s substr \<longleftrightarrow> sublist substr s"
  by (simp add: Contains_def Index_nonneg_iff_sublist)

lemma Sanitize_range_iff: "Sanitize_range l ps \<longleftrightarrow> (\<exists>p \<in> set ps. Contains l p)"
  by (induction ps) auto

text \<open>
  Where \<open>Index\<close> finds the separator, the string is the part before it, the separator and
  the rest; the part before holds no separator; and the place found depends on nothing
  behind the separator.
\<close>

lemma Index_cases:
  assumes "Index (c # cs) sep = int i" "\<not> prefix sep (c # cs)"
  obtains i' where "i = Suc i'" "Index cs sep = int i'"
  using assms by (cases i) (auto simp: Let_def split: if_splits)

lemma Index_split:
  assumes "Index s sep = int i"
  shows "s = take i s @ sep @ drop (i + length sep) s"
  using assms
proof (induction s arbitrary: i)
  case Nil
  then show ?case by (simp split: if_splits)
next
  case (Cons c cs)
  show ?case
  proof (cases "prefix sep (c # cs)")
    case True
    with Cons.prems have "i = 0" by simp
    with True show ?thesis
      by (auto simp: prefix_def)
  next
    case False
    with Cons.prems obtain i' where i': "i = Suc i'" "Index cs sep = int i'"
      by (rule Index_cases)
    from Cons.IH [OF i'(2)] i'(1) show ?thesis by simp
  qed
qed

lemma Index_bound:
  assumes "Index s sep = int i"
  shows "i + length sep \<le> length s"
  using assms
proof (induction s arbitrary: i)
  case Nil
  then show ?case by (simp split: if_splits)
next
  case (Cons c cs)
  show ?case
  proof (cases "prefix sep (c # cs)")
    case True
    with Cons.prems have "i = 0" by simp
    with True show ?thesis by (auto dest: prefix_length_le)
  next
    case False
    with Cons.prems obtain i' where i': "i = Suc i'" "Index cs sep = int i'"
      by (rule Index_cases)
    from Cons.IH [OF i'(2)] i'(1) show ?thesis by simp
  qed
qed

lemma Index_take_none:
  assumes "Index s sep = int i" "sep \<noteq> []"
  shows "Index (take i s) sep < 0"
  using assms
proof (induction s arbitrary: i)
  case Nil
  then show ?case by simp
next
  case (Cons c cs)
  show ?case
  proof (cases "prefix sep (c # cs)")
    case True
    with Cons.prems have "i = 0" by simp
    with Cons.prems show ?thesis by simp
  next
    case False
    from Cons.prems(1) False obtain i' where i': "i = Suc i'" "Index cs sep = int i'"
      by (rule Index_cases)
    have "\<not> prefix sep (c # take i' cs)"
    proof
      assume "prefix sep (c # take i' cs)"
      moreover have "prefix (c # take i' cs) (c # cs)"
        by (simp add: take_is_prefix)
      ultimately have "prefix sep (c # cs)" by (rule prefix_order.trans)
      with False show False by simp
    qed
    moreover have "Index (take i' cs) sep < 0"
      using Cons.IH [OF i'(2) Cons.prems(2)] .
    ultimately show ?thesis
      using i'(1) by (simp add: Let_def)
  qed
qed

lemma prefix_before_separator:
  assumes "prefix sep (u @ sep @ r)"
  shows "prefix sep (u @ sep @ r')"
proof -
  from assms have "take (length sep) (u @ sep @ r) = sep"
    by (metis append_eq_conv_conj prefix_def)
  then have "take (length sep) (u @ sep) = sep"
    by simp
  then have "prefix sep (u @ sep)"
    by (metis take_is_prefix)
  then show ?thesis
    by (metis append.assoc prefix_prefix)
qed

lemma Index_same_head:
  assumes "Index s sep = int i" "sep \<noteq> []"
  shows "Index (take i s @ sep @ r) sep = int i"
  using assms
proof (induction s arbitrary: i)
  case Nil
  then show ?case by simp
next
  case (Cons c cs)
  show ?case
  proof (cases "prefix sep (c # cs)")
    case True
    with Cons.prems have "i = 0" by simp
    moreover obtain d ds where "sep @ r = d # ds"
      using Cons.prems(2) by (cases sep) auto
    moreover have "prefix sep (sep @ r)" by simp
    ultimately show ?thesis by simp
  next
    case False
    from Cons.prems(1) False obtain i' where i': "i = Suc i'" "Index cs sep = int i'"
      by (rule Index_cases)
    have cs: "cs = take i' cs @ sep @ drop (i' + length sep) cs"
      using i'(2) by (rule Index_split)
    have "\<not> prefix sep (c # take i' cs @ sep @ r)"
    proof
      assume "prefix sep (c # take i' cs @ sep @ r)"
      then have "prefix sep ((c # take i' cs) @ sep @ r)" by simp
      then have "prefix sep ((c # take i' cs) @ sep @ drop (i' + length sep) cs)"
        by (rule prefix_before_separator)
      with cs have "prefix sep (c # cs)" by simp
      with False show False by simp
    qed
    moreover have "Index (take i' cs @ sep @ r) sep = int i'"
      using Cons.IH [OF i'(2) Cons.prems(2)] .
    ultimately show ?thesis
      using i'(1) by (simp add: Let_def)
  qed
qed

lemma Index_found: "\<not> Index s sep < 0 \<Longrightarrow> \<exists>i. Index s sep = int i"
  by (metis nat_0_le not_le_imp_less order_less_imp_le zle_int int_nat_eq linorder_not_less)

lemma genSplit_nonempty: "genSplit s sep \<noteq> []"
  by (subst genSplit.simps) (simp add: Let_def)

lemma Join_Cons: "es \<noteq> [] \<Longrightarrow> Join (e # es) sep = e @ sep @ Join es sep"
  by (cases es) simp_all

text \<open>Joining what was split gives the string back.\<close>

lemma Join_genSplit: "sep \<noteq> [] \<Longrightarrow> Join (genSplit s sep) sep = s"
proof (induction s sep rule: genSplit.induct)
  case (1 s sep)
  show ?case
  proof (cases "Index s sep < 0")
    case True
    with "1.prems" show ?thesis by (subst genSplit.simps) simp
  next
    case False
    then obtain i where i: "Index s sep = int i"
      using Index_found by blast
    have "Join (genSplit (drop (i + length sep) s) sep) sep = drop (i + length sep) s"
      using "1.IH" [of "Index s sep"] "1.prems" False i by simp
    with "1.prems" False i show ?thesis
      using Index_split [OF i]
      by (subst genSplit.simps) (simp add: Let_def Join_Cons genSplit_nonempty)
  qed
qed

text \<open>The first \<open>n\<close> segments, joined, split into these \<open>n\<close> segments again.\<close>

lemma genSplit_Join_take:
  "sep \<noteq> [] \<Longrightarrow> 0 < n \<Longrightarrow>
   genSplit (Join (take n (genSplit s sep)) sep) sep = take n (genSplit s sep)"
proof (induction s sep arbitrary: n rule: genSplit.induct)
  case (1 s sep)
  show ?case
  proof (cases "Index s sep < 0")
    case True
    then have g: "genSplit s sep = [s]"
      using "1.prems" by (subst genSplit.simps) simp
    with "1.prems" show ?thesis by (cases n) simp_all
  next
    case False
    then obtain i where i: "Index s sep = int i"
      using Index_found by blast
    define rest where "rest = genSplit (drop (i + length sep) s) sep"
    have g: "genSplit s sep = take i s # rest"
      using "1.prems" False i unfolding rest_def by (subst genSplit.simps) (simp add: Let_def)
    from "1.prems" obtain k where n: "n = Suc k" by (cases n) auto
    show ?thesis
    proof (cases k)
      case 0
      have "Index (take i s) sep < 0"
        using i "1.prems"(1) by (rule Index_take_none)
      then have "genSplit (take i s) sep = [take i s]"
        using "1.prems" by (subst genSplit.simps) simp
      with g n 0 show ?thesis by simp
    next
      case (Suc k')
      let ?J = "Join (take k rest) sep"
      have ne: "take k rest \<noteq> []"
        using Suc by (simp add: rest_def genSplit_nonempty)
      have IH: "genSplit ?J sep = take k rest"
        using "1.IH" [of "Index s sep" k] "1.prems" False i Suc unfolding rest_def by simp
      have J: "Join (take n (genSplit s sep)) sep = take i s @ sep @ ?J"
        using g n ne by (simp add: Join_Cons)
      have idx: "Index (take i s @ sep @ ?J) sep = int i"
        using i "1.prems"(1) by (rule Index_same_head)
      have len: "i \<le> length s"
        using Index_bound [OF i] by simp
      have "genSplit (take i s @ sep @ ?J) sep = take i s # genSplit ?J sep"
        using "1.prems"(1) idx len
        by (subst genSplit.simps) (simp add: Let_def)
      with J IH g n show ?thesis by simp
    qed
  qed
qed

lemma stackSep_nonempty: "stackSep \<noteq> []"
  by (simp add: stackSep_def)

lemma Split_stackSep: "Split s stackSep = genSplit s stackSep"
  by (simp add: Split_def stackSep_def)

lemma Join_take_all:
  assumes "length (Split s stackSep) \<le> 6"
  shows "Join (take 6 (Split s stackSep)) stackSep = s"
  using assms by (simp add: Split_stackSep Join_genSplit stackSep_nonempty)

section \<open>Properties of the rendering\<close>

lemma htmlReplacement_plain: "\<not> htmlSpecial c \<Longrightarrow> htmlReplacement c = [c]"
  by (simp add: htmlSpecial_def htmlReplacement_def)

lemma htmlEscaper_escapeFree: "escapeFree s \<Longrightarrow> htmlEscaper s = s"
  by (induction s) (simp_all add: escapeFree_def htmlEscaper_def htmlReplacement_plain)

lemma escapeFree_Nil: "escapeFree []"
  by (simp add: escapeFree_def)

lemma escapeFree_Cons: "escapeFree (c # s) \<longleftrightarrow> \<not> htmlSpecial c \<and> escapeFree s"
  by (simp add: escapeFree_def)

text \<open>Decimal digits, the point, the unit letters and the minus sign are not escaped.\<close>

lemma digitByte_code: "d < 10 \<Longrightarrow> of_char (digitByte d) = 48 + d"
  by (simp add: digitByte_def)

lemma digitByte_plain: "d < 10 \<Longrightarrow> \<not> htmlSpecial (digitByte d)"
proof
  assume d: "d < 10" and "htmlSpecial (digitByte d)"
  then have "(of_char (digitByte d) :: nat) \<in> {0, 34, 38, 39, 43, 60, 62}"
    unfolding htmlSpecial_def by auto
  with d show False by (simp add: digitByte_code)
qed

lemma escapeFree_fmtInt_loop: "escapeFree buf \<Longrightarrow> escapeFree (fmtInt_loop v buf)"
proof (induction v buf rule: fmtInt_loop.induct)
  case (1 v buf)
  show ?case
  proof (cases "v > 0")
    case True
    have "escapeFree (digitByte (v mod 10) # buf)"
      using "1.prems" by (simp add: escapeFree_Cons digitByte_plain)
    with True "1.IH" show ?thesis by (subst fmtInt_loop.simps) simp
  next
    case False
    with "1.prems" show ?thesis by (subst fmtInt_loop.simps) simp
  qed
qed

lemma escapeFree_fmtInt: "escapeFree buf \<Longrightarrow> escapeFree (fmtInt buf v)"
  by (simp add: fmtInt_def escapeFree_fmtInt_loop escapeFree_Cons htmlSpecial_def)

lemma escapeFree_Sprint_int: "escapeFree (Sprint_int i)"
  by (simp add: Sprint_int_def escapeFree_fmtInt escapeFree_Cons htmlSpecial_def escapeFree_Nil)

lemma escapeFree_fmtFrac_loop:
  "escapeFree buf \<Longrightarrow> escapeFree (fst (fmtFrac_loop i v print buf))"
  by (induction i v print buf rule: fmtFrac_loop.induct)
     (simp_all add: Let_def escapeFree_Cons digitByte_plain)

lemma escapeFree_fmtFrac:
  assumes "escapeFree buf"
  shows "escapeFree (fst (fmtFrac buf v prec))"
proof (cases "fmtFrac_loop prec v False buf")
  case (fields b v' print)
  with escapeFree_fmtFrac_loop [OF assms, of prec v False] have "escapeFree b" by simp
  with fields show ?thesis
    by (simp add: fmtFrac_def escapeFree_Cons htmlSpecial_def)
qed

lemma escapeFree_units:
  "escapeFree ''0s''" "escapeFree ''ns''" "escapeFree [CHR 0xC2, CHR 0xB5, CHR ''s'']"
  "escapeFree ''ms''" "escapeFree ''s''"
  by (simp_all add: escapeFree_def htmlSpecial_def)

lemma escapeFree_sub_second:
  assumes "escapeFree buf"
  shows "escapeFree (case fmtFrac buf u prec of (buf, u) \<Rightarrow> fmtInt buf u)"
proof (cases "fmtFrac buf u prec")
  case (Pair b u')
  with escapeFree_fmtFrac [OF assms, of u prec] show ?thesis
    by (simp add: escapeFree_fmtInt)
qed

lemma escapeFree_clock:
  assumes "escapeFree buf"
  shows "escapeFree
     (let buf = fmtInt buf (u mod 60);
          u = u div 60
      in if u > 0 then
           (let buf = fmtInt (CHR ''m'' # buf) (u mod 60);
                u = u div 60
            in if u > 0 then fmtInt (CHR ''h'' # buf) u else buf)
         else buf)"
  using assms
  by (simp add: Let_def escapeFree_fmtInt escapeFree_Cons htmlSpecial_def)

lemma escapeFree_seconds:
  "escapeFree
     (case fmtFrac ''s'' u 9 of
        (buf, u) \<Rightarrow>
          (let buf = fmtInt buf (u mod 60);
               u = u div 60
           in if u > 0 then
                (let buf = fmtInt (CHR ''m'' # buf) (u mod 60);
                     u = u div 60
                 in if u > 0 then fmtInt (CHR ''h'' # buf) u else buf)
              else buf))"
proof (cases "fmtFrac ''s'' u 9")
  case (Pair b u')
  have "escapeFree b"
    using escapeFree_fmtFrac [OF escapeFree_units(5), of u 9] Pair by simp
  then show ?thesis
    unfolding Pair prod.case by (rule escapeFree_clock)
qed

lemma escapeFree_Duration_format: "escapeFree (Duration_format u)"
proof -
  have sub: "escapeFree (case fmtFrac buf u prec of (buf, u) \<Rightarrow> fmtInt buf u)"
    if "buf \<in> {''ns'', [CHR 0xC2, CHR 0xB5, CHR ''s''], ''ms''}" for buf u prec
    using that escapeFree_units by (auto intro: escapeFree_sub_second)
  show ?thesis
    unfolding Duration_format_def
    using escapeFree_seconds [of u] sub escapeFree_units(1)
    by simp
qed

lemma escapeFree_Duration_String: "escapeFree (Duration_String d)"
  by (simp add: Duration_String_def Let_def escapeFree_Duration_format escapeFree_Cons
      htmlSpecial_def)

text \<open>The compiled template, executed.\<close>

lemma logMessage_compiled:
  "logMessage CompileCanonicalLogTemplate r =
     ''['' @ htmlEscaper (Transport r) @ '']['' @ htmlEscaper (Traffic r) @ ''] ''
       @ htmlEscaper (Method r) @ '' '' @ htmlEscaper (Sprint_int (Status r)) @ '' ''
       @ htmlEscaper (Path r) @ '' '' @ htmlEscaper (Duration_String (Duration r))
       @ '' - '' @ htmlEscaper (Message r)"
  by (simp add: logMessage_def CompileCanonicalLogTemplate_def GetCanonicalLogTemplate_def
      Execute_def)

section \<open>Properties of \<open>CanonicalLogger\<close>\<close>

lemma respond_level:
  "fst (respond Unmarshal response err canonicalLog) = (if err = None then Info else Error)"
  by (simp add: respond_def split: option.splits error.splits)

lemma called_emit_Info: "called (emit Info m fs) = InfoContext"
  by (simp add: emit_def Info_def Debug_def)

lemma called_emit_Error: "called (emit Error m fs) = ErrorContext"
  by (simp add: emit_def Info_def Debug_def Error_def Warn_def)

lemma args_exception:
  assumes "\<not> Sanitize unicodeLower (Path canonicalLog)"
  shows "args (CanonicalLogger unicodeLower Unmarshal tmpl level request response
            (Some (ExceptionErrorPtr (Some cErr))) canonicalLog metadata)
     = [payloadField Unmarshal ''request'' request]
       @ (if StackErrors cErr \<noteq> None then [stackGroup (StackErrors cErr)] else [])
       @ [responseGroup cErr, slog_String ''logger_name'' ''canonical'',
          slog_Group ''md'' metadata]"
  using assms by (simp add: CanonicalLogger_def Let_def respond_def emit_def)

lemma stackGroup_first:
  "stackGroup (Some (first # rest))
     = slog_Group ''error''
         [slog_String ''kind'' (Kind first),
          slog_String ''message'' (Message_StackError first),
          slog_String ''stack'' (Join (take 6 (Split (Stack first) stackSep)) stackSep)]"
proof (cases "length (Split (Stack first) stackSep) > 6")
  case True
  then show ?thesis by (simp add: stackGroup_def GetStackField_def Let_def)
next
  case False
  then have "Join (take 6 (Split (Stack first) stackSep)) stackSep = Stack first"
    by (intro Join_take_all) simp
  with False show ?thesis by (simp add: stackGroup_def GetStackField_def Let_def)
qed

lemma EncodeEntry_range_filter:
  "EncodeEntry_range filtered fs
     = filtered @ filter (\<lambda>f. Key f \<noteq> ''skip'' \<and> Type f \<noteq> Int64Type) fs"
  by (induction fs arbitrary: filtered) auto

section \<open>Properties of the decoder\<close>

lemma error_absorbing: "scan_step s = ScanError \<Longrightarrow> \<not> checkValid_range s (c # cs)"
  by (simp add: scanner_step_def)











section \<open>Properties of the masker\<close>

lemma take1_hd: "s \<noteq> [] \<Longrightarrow> take (Suc 0) s = [hd s]"
  by (cases s) simp_all

lemma drop_last: "s \<noteq> [] \<Longrightarrow> drop (length s - Suc 0) s = [last s]"
  by (cases s rule: rev_cases) simp_all

lemma multiByte_pos: "0 < multiByte sz lo hi rest"
  by (simp add: multiByte_def)

lemma runeWidth_pos: "s \<noteq> [] \<Longrightarrow> 0 < runeWidth s"
  by (cases s) (simp_all add: runeWidth.simps Let_def multiByte_pos)

lemma runeWidth_single: "runeWidth [b] = 1"
  by (simp add: runeWidth.simps Let_def multiByte_def)

lemma characters_Nil: "characters [] = []"
  by (subst characters.simps) simp

lemma characters_eq_Nil: "characters s = [] \<longleftrightarrow> s = []"
  by (subst characters.simps) simp

lemma characters_single: "characters [b] = [[b]]"
  by (subst characters.simps) (simp add: runeWidth_single characters_Nil)

lemma concat_characters: "concat (characters s) = s"
proof (induction s rule: characters.induct)
  case (1 s)
  then show ?case
    by (subst characters.simps) simp
qed

lemma bytesMasked_eq_spec:
  assumes "singleByteEnds s"
  shows "bytesMasked s = spec_masked s"
proof (cases s)
  case Nil
  then show ?thesis by (simp add: bytesMasked_def spec_masked_def characters_Nil)
next
  case outer: (Cons b rest)
  show ?thesis
  proof (cases rest)
    case Nil
    with outer show ?thesis
      by (simp add: bytesMasked_def spec_masked_def characters_single)
  next
    case (Cons b' rest')
    with outer have len: "2 \<le> length s" by simp
    with assms have ends: "hd (characters s) = [hd s]" "last (characters s) = [last s]"
      by (simp_all add: singleByteEnds_def)
    obtain c cs where ccs: "characters s = c # cs"
      using outer by (cases "characters s") (simp_all add: characters_eq_Nil)
    have "cs \<noteq> []"
    proof
      assume "cs = []"
      with ccs ends have "characters s = [[hd s]]" by simp
      then have "concat (characters s) = [hd s]" by simp
      then have "s = [hd s]" by (simp add: concat_characters)
      then have "length s = 1" by (metis length_Cons list.size(3) One_nat_def)
      with len show False by simp
    qed
    then have two: "2 \<le> length (characters s)"
      using ccs by (cases cs) simp_all
    have "s \<noteq> []" using outer by simp
    then have "take (Suc 0) s = [hd s]" "drop (length s - Suc 0) s = [last s]"
      by (simp_all add: take1_hd drop_last)
    with two ends len show ?thesis
      by (simp add: bytesMasked_def spec_masked_def Let_def)
  qed
qed

lemma characters_ascii: "isASCII s \<Longrightarrow> characters s = map (\<lambda>c. [c]) s"
proof (induction s)
  case Nil
  then show ?case by (simp add: characters_Nil)
next
  case (Cons c cs)
  then have "runeWidth (c # cs) = 1" by (simp add: isASCII_def runeWidth.simps)
  with Cons show ?case
    by (subst characters.simps) (simp add: isASCII_def)
qed

lemma singleByteEnds_ascii:
  assumes "isASCII s"
  shows "singleByteEnds s"
proof (cases "s = []")
  case True
  then show ?thesis by (simp add: singleByteEnds_def)
next
  case False
  then show ?thesis
    by (simp add: singleByteEnds_def characters_ascii [OF assms] hd_map last_map)
qed

lemma maskEntry_lookup_string:
  assumes "fmlookup data k = Some (AnyString s)"
  shows "fmlookup (maskEntry k data) k' =
     (if k' = k then Some (AnyString (bytesMasked s)) else fmlookup data k')"
proof (cases "s = []")
  case True
  with assms show ?thesis by (simp add: maskEntry_def bytesMasked_def)
next
  case False
  then have "take (Suc 0) s = [hd s]" "drop (length s - Suc 0) s = [last s]"
    by (simp_all add: take1_hd drop_last)
  with assms False show ?thesis
    by (auto simp: maskEntry_def bytesMasked_def)
qed

lemma maskEntry_nonstring:
  assumes "\<And>s. fmlookup data k \<noteq> Some (AnyString s)"
  shows "maskEntry k data = data"
  using assms by (auto simp: maskEntry_def split: option.splits any.splits)

lemma maskEntry_lookup_other:
  "k' \<noteq> k \<Longrightarrow> fmlookup (maskEntry k data) k' = fmlookup data k'"
  by (auto simp: maskEntry_def split: option.splits any.splits)

lemma maskField_string:
  assumes "isSensitive f" "fmlookup data (jsonFieldName f) = Some (AnyString s)"
  shows "maskField f data = fmupd (jsonFieldName f) (AnyString (bytesMasked s)) data"
  using assms
  by (intro fmap_ext) (simp add: maskField_def maskEntry_lookup_string)

lemma maskField_keeps_nonstring:
  assumes "\<And>s. fmlookup data k \<noteq> Some (AnyString s)"
  shows "fmlookup (maskField f data) k = fmlookup data k"
proof (cases "isSensitive f \<and> jsonFieldName f = k")
  case True
  with assms show ?thesis by (simp add: maskField_def maskEntry_nonstring)
next
  case False
  then show ?thesis by (auto simp: maskField_def maskEntry_lookup_other)
qed

lemma maskFields_keeps_nonstring:
  assumes "\<And>s. fmlookup data k \<noteq> Some (AnyString s)"
  shows "fmlookup (maskFields fs data) k = fmlookup data k"
  using assms
proof (induction fs arbitrary: data)
  case Nil
  then show ?case by simp
next
  case (Cons f fs)
  have eq: "fmlookup (maskField f data) k = fmlookup data k"
    using Cons.prems by (rule maskField_keeps_nonstring)
  then have "\<And>s. fmlookup (maskField f data) k \<noteq> Some (AnyString s)"
    using Cons.prems by simp
  then have "fmlookup (maskFields fs (maskField f data)) k = fmlookup (maskField f data) k"
    by (rule Cons.IH)
  with eq show ?case by simp
qed

lemma maskField_lookup_unnamed:
  assumes "\<not> (isSensitive f \<and> jsonFieldName f = k)"
  shows "fmlookup (maskField f data) k = fmlookup data k"
  using assms by (auto simp: maskField_def maskEntry_lookup_other)

lemma maskFields_lookup_unnamed:
  assumes "\<forall>f \<in> set fs. \<not> (isSensitive f \<and> jsonFieldName f = k)"
  shows "fmlookup (maskFields fs data) k = fmlookup data k"
  using assms
  by (induction fs arbitrary: data) (simp_all add: maskField_lookup_unnamed)

lemma maskFields_lookup_named_once:
  assumes "length (filter (\<lambda>g. isSensitive g \<and> jsonFieldName g = k) fs) = 1"
    and "fmlookup data k = Some (AnyString s)"
  shows "fmlookup (maskFields fs data) k = Some (AnyString (bytesMasked s))"
  using assms
proof (induction fs arbitrary: data)
  case Nil
  then show ?case by simp
next
  case (Cons f fs)
  show ?case
  proof (cases "isSensitive f \<and> jsonFieldName f = k")
    case True
    with Cons.prems(1) have "filter (\<lambda>g. isSensitive g \<and> jsonFieldName g = k) fs = []"
      by simp
    then have none: "\<forall>g \<in> set fs. \<not> (isSensitive g \<and> jsonFieldName g = k)"
      by (simp add: filter_empty_conv)
    have "fmlookup (maskField f data) k = Some (AnyString (bytesMasked s))"
      using True Cons.prems(2) by (simp add: maskField_def maskEntry_lookup_string)
    with none show ?thesis
      by (simp add: maskFields_lookup_unnamed)
  next
    case False
    then have "fmlookup (maskField f data) k = Some (AnyString s)"
      using Cons.prems(2) by (simp add: maskField_lookup_unnamed)
    moreover from False Cons.prems(1)
    have "length (filter (\<lambda>g. isSensitive g \<and> jsonFieldName g = k) fs) = 1"
      by auto
    ultimately show ?thesis
      using Cons.IH by simp
  qed
qed

section \<open>The examples, evaluated\<close>

lemma Sprint_int_200: "Sprint_int 200 = ''200''"
  by code_simp

lemma Duration_String_150ms: "Duration_String 150000000 = ''150ms''"
  by code_simp

lemma exampleLog_line:
  "logMessage CompileCanonicalLogTemplate exampleLog
     = ''[HTTP][incoming] GET 200 /api/users 150ms - Success''"
  by (simp add: logMessage_compiled exampleLog_def Sprint_int_200 Duration_String_150ms
      htmlEscaper_def htmlReplacement_def)

lemma users_not_redacted: "\<not> Sanitize unicodeLower_id ''/api/users''"
  unfolding Sanitize_def Let_def by code_simp

lemma login_redacted: "Sanitize unicodeLower_id ''/api/auth/login''"
  unfolding Sanitize_def Let_def by code_simp

lemma Split_eightLines: "Split eightLines stackSep = [eightLines]"
  by code_simp

lemma Split_eightLines_newline: "length (Split eightLines newline) = 8"
  by code_simp

lemma eightLines_not_cut: "eightLines \<noteq> spec_truncatedStack eightLines"
  by code_simp

lemma Split_tenLines:
  "Join (take 6 (Split tenLines stackSep)) stackSep
     = Join [''line1'', ''line2'', ''line3'', ''line4'', ''line5'', ''line6''] stackSep"
  by code_simp

lemma Split_empty: "Split [] stackSep = [[]]"
  by code_simp

lemma exampleStruct_sensitive:
  "map isSensitive exampleStruct = [False, True, True, True]"
  by (simp add: exampleStruct_def isSensitive_def Tag_Lookup_def)

lemma exampleStruct_names:
  "map jsonFieldName exampleStruct = [''username'', ''password'', ''pin'', ''age'']"
  unfolding exampleStruct_def jsonFieldName_def Tag_Get_def Tag_Lookup_def Let_def
  by code_simp

text \<open>
  When two fields marked sensitive have the same JSON name, the rule is applied at each
  of them, to the entry as it is then: \<open>x\<close> is \<open>x*****\<close> after the first and
  \<open>x******\<close> after the second.
\<close>

lemma Index_pin: "Index ''pin'' '','' = - 1"
  by code_simp

lemma maskFields_same_name_twice:
  "fmlookup
     (maskFields
        [\<lparr>Name = ''Pin'', Tag = [(''json'', ''pin''), (''sensitive'', ''true'')]\<rparr>,
         \<lparr>Name = ''PinAgain'', Tag = [(''json'', ''pin''), (''sensitive'', ''true'')]\<rparr>]
        (fmupd ''pin'' (AnyString ''x'') fmempty))
     ''pin''
   = Some (AnyString ''x******'')"
  by (simp add: maskField_def isSensitive_def jsonFieldName_def Tag_Get_def Tag_Lookup_def
      maskEntry_def Index_pin)

lemma Split_twoFrames: "length (Split twoFrames stackSep) = 2"
  by code_simp

lemma exampleStruct_Password:
  "isSensitive (exampleStruct ! 1)" "jsonFieldName (exampleStruct ! 1) = ''password''"
proof -
  have "exampleStruct ! 1
      = \<lparr>Name = ''Password'',
         Tag = [(''json'', ''password,omitempty''), (''sensitive'', ''true'')]\<rparr>"
    by (simp add: exampleStruct_def)
  moreover have "Index ''password,omitempty'' '','' = 8"
    by code_simp
  ultimately show "isSensitive (exampleStruct ! 1)"
    "jsonFieldName (exampleStruct ! 1) = ''password''"
    by (simp_all add: isSensitive_def jsonFieldName_def Tag_Get_def Tag_Lookup_def)
qed

lemma exampleStruct_Username: "\<not> isSensitive (exampleStruct ! 0)"
  by (simp add: exampleStruct_def isSensitive_def Tag_Lookup_def)

lemma exampleStruct_Age:
  "isSensitive (exampleStruct ! 3)" "jsonFieldName (exampleStruct ! 3) = ''age''"
proof -
  have "exampleStruct ! 3
      = \<lparr>Name = ''Age'', Tag = [(''json'', ''age,omitempty''), (''sensitive'', ''true'')]\<rparr>"
    by (simp add: exampleStruct_def)
  moreover have "Index ''age,omitempty'' '','' = 3"
    by code_simp
  ultimately show "isSensitive (exampleStruct ! 3)"
    "jsonFieldName (exampleStruct ! 3) = ''age''"
    by (simp_all add: isSensitive_def jsonFieldName_def Tag_Get_def Tag_Lookup_def)
qed

lemma filter_by_maps:
  "filter (\<lambda>g. P g \<and> name g = k) fs
     = map fst (filter (\<lambda>(g, p, n). p \<and> n = k) (zip fs (zip (map P fs) (map name fs))))"
  by (induction fs) auto







lemma singleByteEnds_examples:
  "singleByteEnds ''secret123''" "singleByteEnds ''x''"
  "singleByteEnds [CHR ''a'', CHR 0xC3, CHR 0xA9, CHR ''b'']"
  by code_simp+

lemma spec_masked_examples:
  "spec_masked ''secret123'' = ''s*****3''" "spec_masked ''x'' = ''x*****''"
  "spec_masked [CHR ''a'', CHR 0xC3, CHR 0xA9, CHR ''b''] = ''a*****b''"
  by code_simp+

lemma characters_eAcute:
  "characters [CHR 0xC3, CHR 0xA9] = [[CHR 0xC3, CHR 0xA9]]"
  by code_simp

lemma exampleStruct_Pin:
  "isSensitive (exampleStruct ! 2)" "jsonFieldName (exampleStruct ! 2) = ''pin''"
  unfolding exampleStruct_def by code_simp+

lemma exampleStruct_pin_once:
  "length (filter (\<lambda>g. isSensitive g \<and> jsonFieldName g = ''pin'') exampleStruct) = 1"
  by (simp add: filter_by_maps exampleStruct_sensitive exampleStruct_names)
     (simp add: exampleStruct_def)


section \<open>Claims\<close>

text \<open>
  C1. The logger method that \<open>CanonicalLogger\<close> calls depends on the error alone, not on
  the level the caller passes: \<open>ErrorContext\<close> for every error that is not \<open>nil\<close>,
  \<open>InfoContext\<close> for \<open>nil\<close>. With \<open>nil\<close> the record keeps its message: the branch on
  the error returns the record as it got it, and the log line is rendered from it.
\<close>

theorem severity_by_error_only:
  "called (CanonicalLogger unicodeLower Unmarshal tmpl level request response err
      canonicalLog metadata)
     = (if err = None then InfoContext else ErrorContext)
   \<and> (err = None \<longrightarrow>
        snd (snd (respond Unmarshal response err canonicalLog)) = canonicalLog
      \<and> msg (CanonicalLogger unicodeLower Unmarshal tmpl level request response err
            canonicalLog metadata)
          = logMessage tmpl canonicalLog)"
proof -
  obtain l rf cl' where r: "respond Unmarshal response err canonicalLog = (l, rf, cl')"
    by (cases "respond Unmarshal response err canonicalLog") auto
  from r have l: "l = (if err = None then Info else Error)"
    using respond_level [of Unmarshal response err canonicalLog] by simp
  have c: "called (CanonicalLogger unicodeLower Unmarshal tmpl level request response err
      canonicalLog metadata) = called (emit l m0 f0)" for m0 f0
    by (simp add: CanonicalLogger_def Let_def r emit_def)
  have "called (CanonicalLogger unicodeLower Unmarshal tmpl level request response err
      canonicalLog metadata) = (if err = None then InfoContext else ErrorContext)"
    using c [of "[]" "[]"] l by (simp add: called_emit_Info called_emit_Error)
  moreover have "err = None \<longrightarrow>
        snd (snd (respond Unmarshal response err canonicalLog)) = canonicalLog
      \<and> msg (CanonicalLogger unicodeLower Unmarshal tmpl level request response err
            canonicalLog metadata)
          = logMessage tmpl canonicalLog"
    by (auto simp: respond_def CanonicalLogger_def Let_def emit_def)
  ultimately show ?thesis by blast
qed

text \<open>
  A call without error and with the hint \<open>Warn\<close> logs at info level, with the message
  of the record in the line; a call with an error and the hint \<open>Debug\<close> logs at error
  level.
\<close>

theorem severity_by_error_only_witness:
  "called (CanonicalLogger unicodeLower_id Unmarshal_example CompileCanonicalLogTemplate
       Warn ''{}'' ''{}'' None exampleLog []) = InfoContext
   \<and> msg (CanonicalLogger unicodeLower_id Unmarshal_example CompileCanonicalLogTemplate
       Warn ''{}'' ''{}'' None exampleLog [])
     = ''[HTTP][incoming] GET 200 /api/users 150ms - Success''
   \<and> called (CanonicalLogger unicodeLower_id Unmarshal_example CompileCanonicalLogTemplate
       Debug ''{}'' ''{}'' (Some (OtherError ''connection refused'')) exampleLog [])
     = ErrorContext"
  using severity_by_error_only [of unicodeLower_id Unmarshal_example CompileCanonicalLogTemplate
      Warn "''{}''" "''{}''" None exampleLog "[]"]
    severity_by_error_only [of unicodeLower_id Unmarshal_example CompileCanonicalLogTemplate
      Debug "''{}''" "''{}''" "Some (OtherError ''connection refused'')" exampleLog "[]"]
  by (simp add: exampleLog_line)

text \<open>
  C2. When \<open>Sanitize\<close> is true for the path of the record, the arguments of the log call
  are the request field \<open>REDACTED\<close>, the response field \<open>REDACTED\<close>, the logger name and
  the metadata group, whatever the request bytes, the response bytes and the error are.
\<close>

theorem redacted_fields:
  assumes "Sanitize unicodeLower (Path canonicalLog)"
  shows "args (CanonicalLogger unicodeLower Unmarshal tmpl level request response err
            canonicalLog metadata)
     = [slog_String ''request'' ''REDACTED'', slog_String ''response'' ''REDACTED'',
        slog_String ''logger_name'' ''canonical'', slog_Group ''md'' metadata]"
proof -
  obtain l rf cl' where r: "respond Unmarshal response err canonicalLog = (l, rf, cl')"
    by (cases "respond Unmarshal response err canonicalLog") auto
  show ?thesis
    using assms by (simp add: CanonicalLogger_def Let_def r emit_def)
qed

text \<open>On the login route, with an \<open>ExceptionError\<close> that has a stack entry.\<close>

theorem redacted_fields_witness:
  "args (CanonicalLogger unicodeLower_id Unmarshal_example CompileCanonicalLogTemplate
       Info ''{}'' ''invalid json''
       (Some (ExceptionErrorPtr (Some (exampleError (Some [exampleFrame tenLines])))))
       (exampleLog\<lparr>Path := ''/api/auth/login''\<rparr>) [])
     = [slog_String ''request'' ''REDACTED'', slog_String ''response'' ''REDACTED'',
        slog_String ''logger_name'' ''canonical'', slog_Group ''md'' []]"
  using redacted_fields [of unicodeLower_id "exampleLog\<lparr>Path := ''/api/auth/login''\<rparr>"
      Unmarshal_example CompileCanonicalLogTemplate Info "''{}''" "''invalid json''"
      "Some (ExceptionErrorPtr (Some (exampleError (Some [exampleFrame tenLines]))))" "[]"]
  by (simp add: login_redacted)

text \<open>
  C3, amended. For an \<open>ExceptionError\<close> with at least one stack entry, on a path that is
  not redacted, \<open>CanonicalLogger\<close> renders the first entry only, and its stack text cut
  to the first six segments delimited by a newline followed by a tab (\<open>"\n\t"\<close>), joined
  by that delimiter: the rendered text splits into exactly the first six segments of the
  stack text (all of them when there are six or fewer, and then the text is unchanged).
\<close>

theorem stack_cut_at_six_segments:
  assumes "StackErrors cErr = Some (first # rest)"
    and "\<not> Sanitize unicodeLower (Path canonicalLog)"
  shows "args (CanonicalLogger unicodeLower Unmarshal tmpl level request response
            (Some (ExceptionErrorPtr (Some cErr))) canonicalLog metadata)
     = [payloadField Unmarshal ''request'' request,
        slog_Group ''error''
          [slog_String ''kind'' (Kind first),
           slog_String ''message'' (Message_StackError first),
           slog_String ''stack'' (Join (take 6 (Split (Stack first) stackSep)) stackSep)],
        responseGroup cErr, slog_String ''logger_name'' ''canonical'',
        slog_Group ''md'' metadata]
   \<and> Split (Join (take 6 (Split (Stack first) stackSep)) stackSep) stackSep
       = take 6 (Split (Stack first) stackSep)
   \<and> (length (Split (Stack first) stackSep) \<le> 6 \<longrightarrow>
        Join (take 6 (Split (Stack first) stackSep)) stackSep = Stack first)"
proof (intro conjI)
  show "args (CanonicalLogger unicodeLower Unmarshal tmpl level request response
            (Some (ExceptionErrorPtr (Some cErr))) canonicalLog metadata)
     = [payloadField Unmarshal ''request'' request,
        slog_Group ''error''
          [slog_String ''kind'' (Kind first),
           slog_String ''message'' (Message_StackError first),
           slog_String ''stack'' (Join (take 6 (Split (Stack first) stackSep)) stackSep)],
        responseGroup cErr, slog_String ''logger_name'' ''canonical'',
        slog_Group ''md'' metadata]"
    using assms by (simp add: args_exception stackGroup_first)
next
  show "Split (Join (take 6 (Split (Stack first) stackSep)) stackSep) stackSep
       = take 6 (Split (Stack first) stackSep)"
    by (simp add: Split_stackSep genSplit_Join_take stackSep_nonempty)
next
  show "length (Split (Stack first) stackSep) \<le> 6 \<longrightarrow>
        Join (take 6 (Split (Stack first) stackSep)) stackSep = Stack first"
    by (intro impI Join_take_all)
qed

text \<open>
  The ten segments of the test, in the first of two stack entries: the stack field holds
  \<open>line1\<close> to \<open>line6\<close>, and nothing of the second entry is rendered. A stack of
  two segments is rendered as it is.
\<close>

theorem stack_cut_at_six_segments_witness:
  "args (CanonicalLogger unicodeLower_id Unmarshal_example CompileCanonicalLogTemplate
       Error ''{}'' ''{}''
       (Some (ExceptionErrorPtr (Some (exampleError
          (Some [exampleFrame tenLines, exampleFrame eightLines])))))
       exampleLog [])
     = [slog_Any ''request'' (AnyMap (Some fmempty)),
        slog_Group ''error''
          [slog_String ''kind'' ''RuntimeError'',
           slog_String ''message'' ''long stack'',
           slog_String ''stack''
             (Join [''line1'', ''line2'', ''line3'', ''line4'', ''line5'', ''line6''] stackSep)],
        responseGroup (exampleError (Some [exampleFrame tenLines, exampleFrame eightLines])),
        slog_String ''logger_name'' ''canonical'', slog_Group ''md'' []]
   \<and> args (CanonicalLogger unicodeLower_id Unmarshal_example CompileCanonicalLogTemplate
       Error ''{}'' ''{}''
       (Some (ExceptionErrorPtr (Some (exampleError (Some [exampleFrame twoFrames])))))
       exampleLog [])
     = [slog_Any ''request'' (AnyMap (Some fmempty)),
        slog_Group ''error''
          [slog_String ''kind'' ''RuntimeError'',
           slog_String ''message'' ''long stack'',
           slog_String ''stack'' twoFrames],
        responseGroup (exampleError (Some [exampleFrame twoFrames])),
        slog_String ''logger_name'' ''canonical'', slog_Group ''md'' []]"
  using stack_cut_at_six_segments [of
      "exampleError (Some [exampleFrame tenLines, exampleFrame eightLines])"
      "exampleFrame tenLines" "[exampleFrame eightLines]" unicodeLower_id exampleLog
      Unmarshal_example CompileCanonicalLogTemplate Error "''{}''" "''{}''" "[]"]
    stack_cut_at_six_segments [of
      "exampleError (Some [exampleFrame twoFrames])"
      "exampleFrame twoFrames" "[]" unicodeLower_id exampleLog
      Unmarshal_example CompileCanonicalLogTemplate Error "''{}''" "''{}''" "[]"]
  by (simp add: exampleError_def exampleFrame_def exampleLog_def users_not_redacted
      Split_tenLines Split_twoFrames payloadField_def Unmarshal_example_def)

text \<open>
  Read with segments delimited by a newline, the claim fails: a stack text of eight
  lines separated by a newline alone is rendered whole, with its eight lines, and is not
  its first six lines.
\<close>

theorem stack_newline_cut_counterexample:
  "args (CanonicalLogger unicodeLower_id Unmarshal_example CompileCanonicalLogTemplate
       Error ''{}'' ''{}''
       (Some (ExceptionErrorPtr (Some (exampleError (Some [exampleFrame eightLines])))))
       exampleLog [])
     = [slog_Any ''request'' (AnyMap (Some fmempty)),
        slog_Group ''error''
          [slog_String ''kind'' ''RuntimeError'', slog_String ''message'' ''long stack'',
           slog_String ''stack'' eightLines],
        responseGroup (exampleError (Some [exampleFrame eightLines])),
        slog_String ''logger_name'' ''canonical'', slog_Group ''md'' []]
   \<and> length (Split eightLines newline) = 8
   \<and> eightLines \<noteq> spec_truncatedStack eightLines"
  by (simp add: CanonicalLogger_def Let_def respond_def exampleError_def exampleFrame_def
      stackGroup_def GetStackField_def Split_eightLines emit_def exampleLog_def
      users_not_redacted Split_eightLines_newline eightLines_not_cut payloadField_def
      Unmarshal_example_def)

text \<open>
  C4, amended. For an \<open>ExceptionError\<close> on a path that is not redacted: when its
  \<open>StackErrors\<close> is \<open>nil\<close>, no stack group is emitted and the response group (API status,
  \<open>nil\<close> data, nested error fields) follows the request field; when \<open>StackErrors\<close> is
  empty but not \<open>nil\<close>, the stack group is emitted with the default entry (kind
  \<open>unknown\<close>, message \<open>no stack information available\<close>, empty stack), before the same
  response group.
\<close>

theorem exception_without_stack_fields:
  assumes "\<not> Sanitize unicodeLower (Path canonicalLog)"
  shows "(StackErrors cErr = None \<longrightarrow>
       args (CanonicalLogger unicodeLower Unmarshal tmpl level request response
            (Some (ExceptionErrorPtr (Some cErr))) canonicalLog metadata)
       = [payloadField Unmarshal ''request'' request,
          slog_Group ''response''
            [slog_Int ''status_code'' (APIStatusCode cErr),
             slog_Any ''data'' AnyNil,
             slog_Group ''error''
               [slog_Int ''code'' (Code cErr),
                slog_String ''message'' (GlobalMessage cErr),
                slog_String ''debug_message'' (DebugMessage cErr),
                slog_Any ''details'' (AnyMap (ErrFields cErr))]],
          slog_String ''logger_name'' ''canonical'', slog_Group ''md'' metadata])
   \<and> (StackErrors cErr = Some [] \<longrightarrow>
       args (CanonicalLogger unicodeLower Unmarshal tmpl level request response
            (Some (ExceptionErrorPtr (Some cErr))) canonicalLog metadata)
       = [payloadField Unmarshal ''request'' request,
          slog_Group ''error''
            [slog_String ''kind'' ''unknown'',
             slog_String ''message'' ''no stack information available'',
             slog_String ''stack'' []],
          slog_Group ''response''
            [slog_Int ''status_code'' (APIStatusCode cErr),
             slog_Any ''data'' AnyNil,
             slog_Group ''error''
               [slog_Int ''code'' (Code cErr),
                slog_String ''message'' (GlobalMessage cErr),
                slog_String ''debug_message'' (DebugMessage cErr),
                slog_Any ''details'' (AnyMap (ErrFields cErr))]],
          slog_String ''logger_name'' ''canonical'', slog_Group ''md'' metadata])"
  using assms
  by (simp add: args_exception responseGroup_def stackGroup_def GetStackField_def Split_empty
      Let_def)

text \<open>
  With \<open>StackErrors\<close> \<open>nil\<close>: the request field, the response group, no stack group.
  With the empty list: the default entry, second among the arguments.
\<close>

theorem exception_without_stack_fields_witness:
  "args (CanonicalLogger unicodeLower_id Unmarshal_example CompileCanonicalLogTemplate
       Info ''{}'' ''{}'' (Some (ExceptionErrorPtr (Some (exampleError None)))) exampleLog [])
     = [slog_Any ''request'' (AnyMap (Some fmempty)),
        slog_Group ''response''
          [slog_Int ''status_code'' 500,
           slog_Any ''data'' AnyNil,
           slog_Group ''error''
             [slog_Int ''code'' 500,
              slog_String ''message'' ''Internal Error'',
              slog_String ''debug_message'' ''Stack trace test'',
              slog_Any ''details'' (AnyMap None)]],
        slog_String ''logger_name'' ''canonical'', slog_Group ''md'' []]
   \<and> hd (tl (args (CanonicalLogger unicodeLower_id Unmarshal_example
       CompileCanonicalLogTemplate Info ''{}'' ''{}''
       (Some (ExceptionErrorPtr (Some (exampleError (Some []))))) exampleLog [])))
     = slog_Group ''error''
          [slog_String ''kind'' ''unknown'',
           slog_String ''message'' ''no stack information available'',
           slog_String ''stack'' []]"
  using exception_without_stack_fields [of unicodeLower_id exampleLog "exampleError None"
      Unmarshal_example CompileCanonicalLogTemplate Info "''{}''" "''{}''" "[]"]
    exception_without_stack_fields [of unicodeLower_id exampleLog "exampleError (Some [])"
      Unmarshal_example CompileCanonicalLogTemplate Info "''{}''" "''{}''" "[]"]
  by (simp add: exampleError_def exampleLog_def users_not_redacted payloadField_def
      Unmarshal_example_def)

text \<open>
  With the empty list \<open>[]StackError{}\<close> the stack group is not skipped: it is the second
  argument of the log call.
\<close>

theorem empty_stack_list_counterexample:
  "args (CanonicalLogger unicodeLower_id Unmarshal_example CompileCanonicalLogTemplate
       Info ''{}'' ''{}'' (Some (ExceptionErrorPtr (Some (exampleError (Some []))))) exampleLog [])
     = [slog_Any ''request'' (AnyMap (Some fmempty)),
        slog_Group ''error''
          [slog_String ''kind'' ''unknown'',
           slog_String ''message'' ''no stack information available'',
           slog_String ''stack'' []],
        slog_Group ''response''
          [slog_Int ''status_code'' 500,
           slog_Any ''data'' AnyNil,
           slog_Group ''error''
             [slog_Int ''code'' 500,
              slog_String ''message'' ''Internal Error'',
              slog_String ''debug_message'' ''Stack trace test'',
              slog_Any ''details'' (AnyMap None)]],
        slog_String ''logger_name'' ''canonical'', slog_Group ''md'' []]"
  by (simp add: CanonicalLogger_def Let_def respond_def exampleError_def
      stackGroup_def GetStackField_def Split_empty emit_def exampleLog_def
      users_not_redacted responseGroup_def payloadField_def Unmarshal_example_def)

text \<open>
  C5, amended. For every record whose transport, traffic, method, path and message
  contain none of the bytes NUL, \<open>"\<close>, \<open>&\<close>, \<open>'\<close>, \<open>+\<close>, \<open><\<close>, \<open>>\<close>, the compiled
  template renders exactly \<open>[transport][traffic] method status path duration - message\<close>
  with the values of the record as they are (the status in decimal, the duration as
  \<open>time.Duration\<close> prints it).
\<close>

theorem canonical_line_of_plain_fields:
  assumes "escapeFree (Transport r)" "escapeFree (Traffic r)" "escapeFree (Method r)"
    "escapeFree (Path r)" "escapeFree (Message r)"
  shows "logMessage CompileCanonicalLogTemplate r = spec_canonicalLine r"
  using assms
  by (simp add: logMessage_compiled spec_canonicalLine_def htmlEscaper_escapeFree
      escapeFree_Sprint_int escapeFree_Duration_String)

text \<open>The record of the test renders as the test expects.\<close>

theorem canonical_line_of_plain_fields_witness:
  "logMessage CompileCanonicalLogTemplate exampleLog
     = ''[HTTP][incoming] GET 200 /api/users 150ms - Success''"
proof -
  have "escapeFree (Transport exampleLog)" "escapeFree (Traffic exampleLog)"
    "escapeFree (Method exampleLog)" "escapeFree (Path exampleLog)"
    "escapeFree (Message exampleLog)"
    by (simp_all add: exampleLog_def escapeFree_def htmlSpecial_def)
  from canonical_line_of_plain_fields [OF this] show ?thesis
    by (simp add: spec_canonicalLine_def exampleLog_def Sprint_int_200 Duration_String_150ms)
qed

text \<open>
  A message with \<open><\<close> is not put in as it is: the template, being an \<open>html/template\<close>,
  writes \<open>&lt;\<close> for it.
\<close>

theorem canonical_line_html_counterexample:
  "logMessage CompileCanonicalLogTemplate (exampleLog\<lparr>Message := ''a < b''\<rparr>)
     = ''[HTTP][incoming] GET 200 /api/users 150ms - a &lt; b''
   \<and> spec_canonicalLine (exampleLog\<lparr>Message := ''a < b''\<rparr>)
     = ''[HTTP][incoming] GET 200 /api/users 150ms - a < b''
   \<and> logMessage CompileCanonicalLogTemplate (exampleLog\<lparr>Message := ''a < b''\<rparr>)
     \<noteq> spec_canonicalLine (exampleLog\<lparr>Message := ''a < b''\<rparr>)"
  by (simp add: logMessage_compiled spec_canonicalLine_def exampleLog_def Sprint_int_200
      Duration_String_150ms htmlEscaper_def htmlReplacement_def)

text \<open>
  C6. For every route key, \<open>Sanitize\<close> returns true exactly when the lower-cased key has
  one of the deny-list strings login, refresh-token, verify-otp, password, token, secret,
  key as a contiguous substring (\<open>lowered = before @ pattern @ after\<close>); the key
  \<open>/api/auth/LOGIN\<close> is redacted and \<open>/health\<close> is not.
\<close>

theorem Sanitize_iff_deny_substring:
  "(Sanitize unicodeLower logKey \<longleftrightarrow>
      (\<exists>p \<in> {''login'', ''refresh-token'', ''verify-otp'', ''password'', ''token'',
               ''secret'', ''key''}.
         \<exists>before after. ToLower unicodeLower logKey = before @ p @ after))
   \<and> Sanitize unicodeLower ''/api/auth/LOGIN''
   \<and> \<not> Sanitize unicodeLower ''/health''"
proof (intro conjI)
  have "set DenyPatterns = {''login'', ''refresh-token'', ''verify-otp'', ''password'',
      ''token'', ''secret'', ''key''}"
    by (simp add: DenyPatterns_def)
  then show "Sanitize unicodeLower logKey \<longleftrightarrow>
      (\<exists>p \<in> {''login'', ''refresh-token'', ''verify-otp'', ''password'', ''token'',
               ''secret'', ''key''}.
         \<exists>before after. ToLower unicodeLower logKey = before @ p @ after)"
    unfolding Sanitize_def Let_def Sanitize_range_iff Contains_iff_sublist sublist_def
    by simp
next
  show "Sanitize unicodeLower ''/api/auth/LOGIN''"
    unfolding Sanitize_def Let_def by code_simp
next
  show "\<not> Sanitize unicodeLower ''/health''"
    unfolding Sanitize_def Let_def by code_simp
qed




text \<open>
  C8, amended. For a struct field that carries \<open>sensitive:"true"\<close> and whose entry in the
  map (under the JSON name of the field) is a string whose first and last characters are
  one byte each, as in every ASCII string, the step of the masker for this field replaces
  the entry by the masked string: first character, \<open>*****\<close>, last character for a string
  of two characters or more, the character and \<open>*****\<close> for a string of one character,
  the empty string as it is; the step for a field without the marker leaves the map as it
  is. For the whole call: the entry under a name that exactly one sensitive field has
  ends as the masked string, and the entry under a name that no sensitive field has is
  unchanged. Nothing is said of a string that begins or ends with a longer character.
\<close>

theorem masking_of_single_byte_ends:
  "(isSensitive f \<longrightarrow> fmlookup data (jsonFieldName f) = Some (AnyString s) \<longrightarrow>
      singleByteEnds s \<longrightarrow>
      maskField f data = fmupd (jsonFieldName f) (AnyString (spec_masked s)) data)
   \<and> (\<not> isSensitive f \<longrightarrow> maskField f data = data)
   \<and> (length (filter (\<lambda>g. isSensitive g \<and> jsonFieldName g = k) fs) = 1 \<longrightarrow>
      fmlookup data k = Some (AnyString s) \<longrightarrow> singleByteEnds s \<longrightarrow>
      fmlookup (maskSensitiveDataUsingStructTag (Some fs) data) k
        = Some (AnyString (spec_masked s)))
   \<and> ((\<forall>g \<in> set fs. \<not> (isSensitive g \<and> jsonFieldName g = k)) \<longrightarrow>
      fmlookup (maskSensitiveDataUsingStructTag (Some fs) data) k = fmlookup data k)
   \<and> (isASCII s \<longrightarrow> singleByteEnds s)"
proof (intro conjI impI)
  show "maskField f data = fmupd (jsonFieldName f) (AnyString (spec_masked s)) data"
    if "isSensitive f" "fmlookup data (jsonFieldName f) = Some (AnyString s)"
      "singleByteEnds s"
    using that by (simp add: maskField_string bytesMasked_eq_spec)
  show "maskField f data = data" if "\<not> isSensitive f"
    using that by (simp add: maskField_def)
  show "fmlookup (maskSensitiveDataUsingStructTag (Some fs) data) k
        = Some (AnyString (spec_masked s))"
    if "length (filter (\<lambda>g. isSensitive g \<and> jsonFieldName g = k) fs) = 1"
      "fmlookup data k = Some (AnyString s)" "singleByteEnds s"
    using that
    by (simp add: maskSensitiveDataUsingStructTag_def maskFields_lookup_named_once
        bytesMasked_eq_spec)
  show "fmlookup (maskSensitiveDataUsingStructTag (Some fs) data) k = fmlookup data k"
    if "\<forall>g \<in> set fs. \<not> (isSensitive g \<and> jsonFieldName g = k)"
    using that by (simp add: maskSensitiveDataUsingStructTag_def maskFields_lookup_unnamed)
  show "singleByteEnds s" if "isASCII s"
    using that by (rule singleByteEnds_ascii)
qed

text \<open>
  \<open>secret123\<close> becomes \<open>s*****3\<close>, at the step of the field and after the call; \<open>x\<close>
  becomes \<open>x*****\<close>; the user name, which is not marked, stays. A string with a
  two-byte character in the middle, a, e with acute accent, b, becomes \<open>a*****b\<close>.
\<close>

theorem masking_of_single_byte_ends_witness:
  "maskField (exampleStruct ! 1) exampleData
     = fmupd ''password'' (AnyString ''s*****3'') exampleData
   \<and> maskField (exampleStruct ! 0) exampleData = exampleData
   \<and> fmlookup (maskSensitiveDataUsingStructTag (Some exampleStruct) exampleData) ''password''
     = Some (AnyString ''s*****3'')
   \<and> fmlookup (maskSensitiveDataUsingStructTag (Some exampleStruct) exampleData) ''pin''
     = Some (AnyString ''x*****'')
   \<and> fmlookup (maskSensitiveDataUsingStructTag (Some exampleStruct) exampleData) ''username''
     = Some (AnyString ''alice'')
   \<and> fmlookup (maskSensitiveDataUsingStructTag (Some exampleStruct)
        (fmupd ''pin'' (AnyString [CHR ''a'', CHR 0xC3, CHR 0xA9, CHR ''b'']) fmempty)) ''pin''
     = Some (AnyString ''a*****b'')
   \<and> singleByteEnds ''secret123''"
proof -
  have once:
    "length (filter (\<lambda>g. isSensitive g \<and> jsonFieldName g = ''password'') exampleStruct) = 1"
    by (simp add: filter_by_maps exampleStruct_sensitive exampleStruct_names)
       (simp add: exampleStruct_def)
  have none: "\<forall>g \<in> set exampleStruct. \<not> (isSensitive g \<and> jsonFieldName g = ''username'')"
  proof -
    have "filter (\<lambda>g. isSensitive g \<and> jsonFieldName g = ''username'') exampleStruct = []"
      by (simp add: filter_by_maps exampleStruct_sensitive exampleStruct_names)
         (simp add: exampleStruct_def)
    then show ?thesis by (simp add: filter_empty_conv)
  qed
  have data: "fmlookup exampleData ''password'' = Some (AnyString ''secret123'')"
    "fmlookup exampleData ''pin'' = Some (AnyString ''x'')"
    "fmlookup exampleData ''username'' = Some (AnyString ''alice'')"
    by (simp_all add: exampleData_def)
  have ascii: "isASCII ''secret123''"
    by code_simp
  show ?thesis
    using masking_of_single_byte_ends [of "exampleStruct ! 1" exampleData "''secret123''"
        "''password''" exampleStruct]
      masking_of_single_byte_ends [of "exampleStruct ! 0" exampleData "''x''"
        "''pin''" exampleStruct]
      masking_of_single_byte_ends [of "exampleStruct ! 0" exampleData "''alice''"
        "''username''" exampleStruct]
      masking_of_single_byte_ends [of "exampleStruct ! 2"
        "fmupd ''pin'' (AnyString [CHR ''a'', CHR 0xC3, CHR 0xA9, CHR ''b'']) fmempty"
        "[CHR ''a'', CHR 0xC3, CHR 0xA9, CHR ''b'']" "''pin''" exampleStruct]
      once none data ascii exampleStruct_pin_once exampleStruct_Password exampleStruct_Username
      singleByteEnds_examples spec_masked_examples
    by simp
qed

text \<open>
  The string of the one character e with acute accent, the two bytes \<open>C3 A9\<close>: the
  specification's mask is the character followed by \<open>*****\<close>; the code, which slices
  bytes, writes the first byte, \<open>*****\<close>, the second byte.
\<close>

theorem multibyte_mask_counterexample:
  "fmlookup (maskSensitiveDataUsingStructTag (Some exampleStruct)
      (fmupd ''pin'' (AnyString [CHR 0xC3, CHR 0xA9]) fmempty)) ''pin''
     = Some (AnyString [CHR 0xC3, CHR ''*'', CHR ''*'', CHR ''*'', CHR ''*'', CHR ''*'',
         CHR 0xA9])
   \<and> characters [CHR 0xC3, CHR 0xA9] = [[CHR 0xC3, CHR 0xA9]]
   \<and> spec_masked [CHR 0xC3, CHR 0xA9]
     = [CHR 0xC3, CHR 0xA9, CHR ''*'', CHR ''*'', CHR ''*'', CHR ''*'', CHR ''*'']"
proof -
  have "fmlookup (maskFields exampleStruct
      (fmupd ''pin'' (AnyString [CHR 0xC3, CHR 0xA9]) fmempty)) ''pin''
     = Some (AnyString (bytesMasked [CHR 0xC3, CHR 0xA9]))"
    using exampleStruct_pin_once by (rule maskFields_lookup_named_once) simp
  then show ?thesis
    by (simp add: maskSensitiveDataUsingStructTag_def bytesMasked_def characters_eAcute
        spec_masked_def)
qed

text \<open>
  C9. \<open>CoolEncoder.EncodeEntry\<close> passes to the encoder it wraps the entry and the fields
  that remain, in their order, when every field with the key \<open>skip\<close> and every field of
  type \<open>Int64Type\<close> is left out; it reports nothing about the fields left out.
\<close>

theorem EncodeEntry_passes_filtered:
  "EncodeEntry Encoder_EncodeEntry entry fs
     = Encoder_EncodeEntry entry
         (filter (\<lambda>f. Key f \<noteq> ''skip'' \<and> Type f \<noteq> Int64Type) fs)"
  by (simp add: EncodeEntry_def EncodeEntry_range_filter)

text \<open>
  C10. Masking touches strings only: an entry of the map that is absent or holds a value
  that is not a string (a number, a boolean, a nested object, \<open>nil\<close>) is the same after
  \<open>maskSensitiveDataUsingStructTag\<close>, also under the name of a field marked sensitive.
\<close>

theorem nonstring_entries_unmasked:
  assumes "\<forall>s. fmlookup data k \<noteq> Some (AnyString s)"
  shows "fmlookup (maskSensitiveDataUsingStructTag message data) k = fmlookup data k"
  using assms
  by (cases message) (simp_all add: maskSensitiveDataUsingStructTag_def maskFields_keeps_nonstring)

text \<open>
  The field \<open>Age\<close> is marked sensitive and its entry is a number: it stays; under
  \<open>token\<close> there is no entry, and none appears.
\<close>

theorem nonstring_entries_unmasked_witness:
  "isSensitive (exampleStruct ! 3) \<and> jsonFieldName (exampleStruct ! 3) = ''age''
   \<and> fmlookup (maskSensitiveDataUsingStructTag (Some exampleStruct) exampleData) ''age''
     = Some (AnyFloat64 0x4045000000000000)
   \<and> fmlookup (maskSensitiveDataUsingStructTag (Some exampleStruct) exampleData) ''token''
     = None"
proof -
  have "\<forall>s. fmlookup exampleData ''age'' \<noteq> Some (AnyString s)"
    "\<forall>s. fmlookup exampleData ''token'' \<noteq> Some (AnyString s)"
    by (simp_all add: exampleData_def)
  moreover note exampleStruct_Age
  ultimately show ?thesis
    using nonstring_entries_unmasked [of exampleData "''age''" "Some exampleStruct"]
      nonstring_entries_unmasked [of exampleData "''token''" "Some exampleStruct"]
    by (simp add: exampleData_def)
qed

end
